theory Spec2Isabelle
  imports Complex_Main "HOL-Library.Word" "HOL-Library.Sublist"
begin

section \<open>The environment of the layout engine\<close>

text \<open>
  The layout engine of \<^verbatim>\<open>src/lib/garden.ts\<close> and \<^verbatim>\<open>src/lib/hiddenMessage.ts\<close> imports
  \<^verbatim>\<open>mulberry32\<close> from \<^verbatim>\<open>./random\<close> and \<^verbatim>\<open>FLOWER_SVGS\<close> from \<^verbatim>\<open>./flowers\<close>, and formats dates
  with the JavaScript \<^verbatim>\<open>Date\<close> object. None of the three is part of the sources, so they are
  the fields of an environment that every function of the model takes as its first argument:
  \<^item> \<open>mulberry32 e s n\<close> is the raw 32-bit output of call number \<open>n\<close> (from 0) of the
    generator seeded with \<open>s\<close>;
  \<^item> \<open>FLOWER_SVGS e\<close> is the flat catalogue of variant identifiers;
  \<^item> \<open>isoDate e i\<close> is the string \<^verbatim>\<open>toISOString().split("T")[0]\<close> of the start date
    2017-10-27 moved forward by \<open>i\<close> days with \<^verbatim>\<open>setDate\<close> (it depends on the time zone of
    the host). The model takes this string to exist for every day: it leaves out the
    \<^verbatim>\<open>RangeError\<close> of \<^verbatim>\<open>toISOString\<close> on a date outside the range of \<^verbatim>\<open>Date\<close>, which
    lies some 10^8 days after the start date, and the limits of memory.
  JavaScript numbers are modelled as \<open>real\<close> where the code computes with fractions, as
  \<open>int\<close> and \<open>nat\<close> where it counts; \<open>undefined\<close> is \<open>None\<close>.
\<close>

record env =
  mulberry32 :: "int \<Rightarrow> nat \<Rightarrow> 32 word"
  FLOWER_SVGS :: "string list"
  isoDate :: "nat \<Rightarrow> string"

text \<open>
  Modelled from the spec: \<^verbatim>\<open>lib/random.ts\<close> (the function \<^verbatim>\<open>mulberry32\<close>) is missing from the
  sources. Section 4.1 of the specification: \<^verbatim>\<open>seed(s: unsigned 32-bit integer) -> stream\<close>,
  \<^verbatim>\<open>next() -> float in [0,1)\<close>, fully determined by \<open>s\<close> and the call count, computed with
  fixed-width unsigned 32-bit integer arithmetic. A closure \<^verbatim>\<open>rng\<close> of the code is a seed
  together with the number of calls made so far; call number \<open>n\<close> returns the 32-bit output
  divided by \<open>2 ^ 32\<close>.
\<close>

definition rng :: "env \<Rightarrow> int \<Rightarrow> nat \<Rightarrow> real" where
  "rng e s n = real (unat (mulberry32 e s n)) / 4294967296"

section \<open>hiddenMessage.ts: the data model\<close>

text \<open>
  Field names carry a prefix, since \<^verbatim>\<open>SpawnPoint\<close>, \<^verbatim>\<open>FlowerData\<close> and \<^verbatim>\<open>MaskBounds\<close> share
  names such as \<^verbatim>\<open>x\<close>, \<^verbatim>\<open>y\<close>, \<^verbatim>\<open>seed\<close> and \<^verbatim>\<open>jitter\<close>. A character is a \<open>char\<close>, a string a
  \<open>char list\<close>; the texts are taken to be ASCII.
\<close>

record LetterMeta =
  lm_lineIndex :: nat
  lm_letterIndex :: nat
  lm_char :: char

record TextMaskResult =
  tm_mask :: "bool list list"
  tm_letterMap :: "int list list"
  tm_letters :: "char list"
  tm_letterMeta :: "LetterMeta list"

record MaskBounds =
  mb_width :: real
  mb_height :: real
  mb_offsetX :: "real option"
  mb_offsetY :: "real option"
  mb_seed :: "int option"
  mb_jitter :: "real option"

record SpawnPoint =
  sp_x :: real
  sp_y :: real
  sp_row :: nat
  sp_col :: nat
  sp_pixelIndex :: nat
  sp_letterIndex :: int
  sp_lineIndex :: nat
  sp_letterChar :: string
  sp_species :: "string option"

text \<open>
  \<^verbatim>\<open>TextMaskOptions\<close>: the spacings count whole columns and rows of the mask and are natural
  numbers here (with them the size of the mask is never negative); the pixel scales are
  any number, floored and raised to 1 by the code.
\<close>

record TextMaskOptions =
  charSpacing :: "nat option"
  lineSpacing :: "nat option"
  pixelScaleX :: "real option"
  pixelScaleY :: "real option"

datatype OptionsOrSpacing = Spacing nat | Options TextMaskOptions

section \<open>hiddenMessage.ts: buildTextMask\<close>

definition PIXEL_FONT :: "(char \<times> string list) list" where
  "PIXEL_FONT =
   [(CHR '' '', [''000000'', ''000000'', ''000000'', ''000000'', ''000000'', ''000000'', ''000000'']),
    (CHR ''A'', [''001100'', ''010010'', ''100001'', ''111111'', ''100001'', ''100001'', ''100001'']),
    (CHR ''B'', [''111110'', ''100001'', ''111110'', ''100001'', ''100001'', ''100001'', ''111110'']),
    (CHR ''C'', [''001111'', ''010000'', ''100000'', ''100000'', ''100000'', ''010000'', ''001111'']),
    (CHR ''E'', [''111111'', ''100000'', ''111110'', ''100000'', ''100000'', ''100000'', ''111111'']),
    (CHR ''F'', [''111111'', ''100000'', ''111110'', ''100000'', ''100000'', ''100000'', ''100000'']),
    (CHR ''H'', [''100001'', ''100001'', ''111111'', ''100001'', ''100001'', ''100001'', ''100001'']),
    (CHR ''L'', [''100000'', ''100000'', ''100000'', ''100000'', ''100000'', ''100000'', ''111111'']),
    (CHR ''O'', [''011110'', ''100001'', ''100001'', ''100001'', ''100001'', ''100001'', ''011110'']),
    (CHR ''R'', [''111110'', ''100001'', ''111110'', ''101000'', ''100100'', ''100010'', ''100001'']),
    (CHR ''U'', [''100001'', ''100001'', ''100001'', ''100001'', ''100001'', ''100001'', ''011110'']),
    (CHR ''V'', [''100001'', ''100001'', ''100001'', ''100001'', ''010010'', ''010010'', ''001100'']),
    (CHR ''Y'', [''100001'', ''010010'', ''001100'', ''001100'', ''001100'', ''001100'', ''001100''])]"

definition spaceGlyph :: "string list" where
  "spaceGlyph = (case map_of PIXEL_FONT (CHR '' '') of Some g \<Rightarrow> g | None \<Rightarrow> [])"

text \<open>\<^verbatim>\<open>PIXEL_FONT[ch] ?? PIXEL_FONT[" "]\<close>\<close>

definition glyphOf :: "char \<Rightarrow> string list" where
  "glyphOf ch = (case map_of PIXEL_FONT ch of Some g \<Rightarrow> g | None \<Rightarrow> spaceGlyph)"

text \<open>\<^verbatim>\<open>key.trim().length\<close> is zero when the one-character key is white space.\<close>

definition isWhitespace :: "char \<Rightarrow> bool" where
  "isWhitespace c = (of_char c \<in> {9, 10, 11, 12, 13, 32 :: nat})"

text \<open>
  \<^verbatim>\<open>PIXEL_FONT[Object.keys(PIXEL_FONT).find((key) => key.trim().length) ?? " "] ?? PIXEL_FONT[" "]\<close>
\<close>

definition sampleGlyph :: "string list" where
  "sampleGlyph =
     glyphOf (case find (\<lambda>key. \<not> isWhitespace key) (map fst PIXEL_FONT) of
                Some key \<Rightarrow> key | None \<Rightarrow> CHR '' '')"

definition baseCharWidth :: nat where
  "baseCharWidth = (case sampleGlyph of [] \<Rightarrow> 0 | g # _ \<Rightarrow> length g)"

definition baseCharHeight :: nat where
  "baseCharHeight = length sampleGlyph"

text \<open>\<^verbatim>\<open>toUpperCase\<close> on ASCII text.\<close>

definition toUpperChar :: "char \<Rightarrow> char" where
  "toUpperChar c =
     (if 97 \<le> (of_char c :: nat) \<and> (of_char c :: nat) \<le> 122
      then char_of ((of_char c :: nat) - 32) else c)"

definition toUpperCase :: "string \<Rightarrow> string" where
  "toUpperCase s = map toUpperChar s"

text \<open>The mutable state of \<^verbatim>\<open>buildTextMask\<close>: the two grids, the two lists and the counter.\<close>

record MaskState =
  ms_mask :: "bool list list"
  ms_letterMap :: "int list list"
  ms_letters :: "char list"
  ms_letterMeta :: "LetterMeta list"
  ms_letterCounter :: nat

definition setCell :: "'a list list \<Rightarrow> nat \<Rightarrow> nat \<Rightarrow> 'a \<Rightarrow> 'a list list" where
  "setCell g row col v = g[row := (g ! row)[col := v]]"

text \<open>
  The body of the two innermost loops:
  \<^verbatim>\<open>if (row < rows && col < cols) { mask[row][col] = true; letterMap[row][col] = currentIndex; }\<close>
\<close>

definition stampPixel ::
  "nat \<Rightarrow> nat \<Rightarrow> int \<Rightarrow> nat \<Rightarrow> nat \<Rightarrow> MaskState \<Rightarrow> MaskState" where
  "stampPixel rows cols currentIndex row col st =
     (if row < rows \<and> col < cols
      then st\<lparr>ms_mask := setCell (ms_mask st) row col True,
              ms_letterMap := setCell (ms_letterMap st) row col currentIndex\<rparr>
      else st)"

text \<open>The loops over \<^verbatim>\<open>yScale\<close> and \<^verbatim>\<open>xScale\<close> for one glyph pixel \<open>(r, c)\<close> that is on.\<close>

definition stampScaled ::
  "nat \<Rightarrow> nat \<Rightarrow> nat \<Rightarrow> nat \<Rightarrow> int \<Rightarrow> nat \<Rightarrow> nat \<Rightarrow> nat \<Rightarrow> nat \<Rightarrow> MaskState \<Rightarrow> MaskState" where
  "stampScaled rows cols psx psy currentIndex startRow colCursor r c st =
     fold (\<lambda>yScale. fold (\<lambda>xScale.
             stampPixel rows cols currentIndex (startRow + r * psy + yScale) (colCursor + c * psx + xScale))
           [0..<psx])
       [0..<psy] st"

text \<open>
  The loops over \<^verbatim>\<open>r\<close> and \<^verbatim>\<open>c\<close>: a missing or empty glyph row is skipped
  (\<^verbatim>\<open>if (!glyphRow) continue\<close>), and so is every pixel that is not the character 1.
\<close>

definition stampGlyph ::
  "nat \<Rightarrow> nat \<Rightarrow> nat \<Rightarrow> nat \<Rightarrow> string list \<Rightarrow> int \<Rightarrow> nat \<Rightarrow> nat \<Rightarrow> MaskState \<Rightarrow> MaskState" where
  "stampGlyph rows cols psx psy glyph currentIndex startRow colCursor st =
     fold (\<lambda>r st1.
             if r < length glyph \<and> glyph ! r \<noteq> []
             then fold (\<lambda>c st2.
                     if c < length (glyph ! r) \<and> glyph ! r ! c = CHR ''1''
                     then stampScaled rows cols psx psy currentIndex startRow colCursor r c st2
                     else st2)
                   [0..<baseCharWidth] st1
             else st1)
       [0..<baseCharHeight] st"

text \<open>
  One iteration of \<^verbatim>\<open>for (const ch of line)\<close>. \<^verbatim>\<open>currentIndex\<close> is \<open>-1\<close> for the space
  and the old value of \<^verbatim>\<open>letterCounter\<close>, which is then incremented, for any other character.
  The state of the line is the pair \<open>(colCursor, charPosition)\<close>.
\<close>

definition charStep ::
  "nat \<Rightarrow> nat \<Rightarrow> nat \<Rightarrow> nat \<Rightarrow> nat \<Rightarrow> nat \<Rightarrow> nat \<Rightarrow> char \<Rightarrow>
   (nat \<times> nat) \<times> MaskState \<Rightarrow> (nat \<times> nat) \<times> MaskState" where
  "charStep rows cols psx psy chSpacing lineIndex startRow ch = (\<lambda>((colCursor, charPosition), st).
     let glyph = glyphOf ch;
         currentIndex = (if ch = CHR '' '' then -1 else int (ms_letterCounter st));
         st1 = (if ch = CHR '' '' then st else st\<lparr>ms_letterCounter := ms_letterCounter st + 1\<rparr>);
         st2 = (if currentIndex \<noteq> -1
                then st1\<lparr>ms_letters := ms_letters st1 @ [ch],
                         ms_letterMeta := ms_letterMeta st1 @
                           [\<lparr>lm_lineIndex = lineIndex, lm_letterIndex = charPosition, lm_char = ch\<rparr>]\<rparr>
                else st1);
         st3 = stampGlyph rows cols psx psy glyph currentIndex startRow colCursor st2
     in ((colCursor + (baseCharWidth * psx + chSpacing), charPosition + 1), st3))"

text \<open>One call of the callback of \<^verbatim>\<open>normalized.forEach((line, lineIndex) => ...)\<close>.\<close>

definition lineStep ::
  "nat \<Rightarrow> nat \<Rightarrow> nat \<Rightarrow> nat \<Rightarrow> nat \<Rightarrow> nat \<Rightarrow> nat \<times> string \<Rightarrow> MaskState \<Rightarrow> MaskState" where
  "lineStep rows cols psx psy chSpacing lnSpacing = (\<lambda>(lineIndex, line) st.
     let scaledCharWidth = baseCharWidth * psx;
         scaledCharHeight = baseCharHeight * psy;
         startRow = lineIndex * (scaledCharHeight + lnSpacing);
         lineLength = max (length line) 1;
         lineWidth = lineLength * (scaledCharWidth + chSpacing) - chSpacing;
         colCursor = (cols - lineWidth) div 2
     in snd (fold (charStep rows cols psx psy chSpacing lineIndex startRow) line
               ((colCursor, 0), st)))"

text \<open>
  For an empty list of lines \<^verbatim>\<open>Math.max()\<close> is \<open>-Infinity\<close> and so is \<^verbatim>\<open>cols\<close>, while
  \<^verbatim>\<open>rows\<close> is 0: no row is allocated, no line is visited and \<^verbatim>\<open>cols\<close> is never read. The
  model takes \<open>cols = 0\<close> there. For a non-empty list every line counts at least 1, so
  the subtraction of \<^verbatim>\<open>charSpacing\<close> and the centring stay within the natural numbers.
\<close>

definition buildTextMask :: "string list \<Rightarrow> OptionsOrSpacing \<Rightarrow> TextMaskResult" where
  "buildTextMask lines optionsOrSpacing =
     (let options = (case optionsOrSpacing of
                       Spacing n \<Rightarrow> \<lparr>charSpacing = Some n, lineSpacing = None,
                                     pixelScaleX = None, pixelScaleY = None\<rparr>
                     | Options opts \<Rightarrow> opts);
          chSpacing = (case charSpacing options of Some v \<Rightarrow> v | None \<Rightarrow> 2);
          lnSpacing = (case lineSpacing options of Some v \<Rightarrow> v | None \<Rightarrow> 2);
          psx = nat (max 1 \<lfloor>case pixelScaleX options of Some v \<Rightarrow> v | None \<Rightarrow> 1\<rfloor>);
          psy = nat (max 1 \<lfloor>case pixelScaleY options of Some v \<Rightarrow> v | None \<Rightarrow> 1\<rfloor>);
          scaledCharWidth = baseCharWidth * psx;
          scaledCharHeight = baseCharHeight * psy;
          normalized = map toUpperCase lines;
          cols = (if normalized = [] then 0
                  else Max (set (map (\<lambda>line. max (length line) 1) normalized))
                         * (scaledCharWidth + chSpacing) - chSpacing);
          rows = length normalized * scaledCharHeight + (length normalized - 1) * lnSpacing;
          st0 = \<lparr>ms_mask = replicate rows (replicate cols False),
                 ms_letterMap = replicate rows (replicate cols (-1)),
                 ms_letters = [], ms_letterMeta = [], ms_letterCounter = 0\<rparr>;
          st = fold (lineStep rows cols psx psy chSpacing lnSpacing)
                 (enumerate 0 normalized) st0
      in \<lparr>tm_mask = ms_mask st, tm_letterMap = ms_letterMap st,
          tm_letters = ms_letters st, tm_letterMeta = ms_letterMeta st\<rparr>)"

section \<open>hiddenMessage.ts: generateFlowerPositionsFromMask\<close>

text \<open>\<^verbatim>\<open>letterMap[row]?.[col] ?? -1\<close>\<close>

definition letterAt :: "int list list \<Rightarrow> nat \<Rightarrow> nat \<Rightarrow> int" where
  "letterAt lmap row col =
     (if row < length lmap \<and> col < length (lmap ! row) then lmap ! row ! col else -1)"

text \<open>\<^verbatim>\<open>letterMeta[letterIndex]\<close>, which is \<^verbatim>\<open>undefined\<close> outside the array.\<close>

definition metaAt :: "LetterMeta list \<Rightarrow> int \<Rightarrow> LetterMeta option" where
  "metaAt metas i = (if 0 \<le> i \<and> nat i < length metas then Some (metas ! nat i) else None)"

text \<open>
  What the spawn loops share: the stream \<open>draw\<close> of the generator seeded for this mask, the
  resolved geometry and the two tables of the mask.
\<close>

record SpawnCtx =
  sc_draw :: "nat \<Rightarrow> real"
  sc_jitter :: real
  sc_offsetX :: real
  sc_offsetY :: real
  sc_cellW :: real
  sc_cellH :: real
  sc_letterMap :: "int list list"
  sc_letterMeta :: "LetterMeta list"

text \<open>
  The state of the scan is the list \<^verbatim>\<open>points\<close> and the number of calls made to \<^verbatim>\<open>rng\<close>.
  \<open>copyLoop\<close> is \<^verbatim>\<open>for (let d = 0; d < totalCopies; d++)\<close>, its first argument the number
  of iterations left: each iteration calls \<^verbatim>\<open>rng\<close> twice, and \<^verbatim>\<open>if (letterIndex === -1) return\<close>
  leaves the callback of the cell after these two calls.
\<close>

fun copyLoop :: "SpawnCtx \<Rightarrow> nat \<Rightarrow> nat \<Rightarrow> nat \<Rightarrow> SpawnPoint list \<times> nat \<Rightarrow> SpawnPoint list \<times> nat" where
  "copyLoop cx row col 0 (points, n) = (points, n)"
| "copyLoop cx row col (Suc k) (points, n) =
     (let jx = (sc_draw cx n - 0.5) * sc_jitter cx;
          jy = (sc_draw cx (n + 1) - 0.5) * sc_jitter cx;
          letterIndex = letterAt (sc_letterMap cx) row col
      in if letterIndex = -1 then (points, n + 2)
         else copyLoop cx row col k
                (points @
                  [\<lparr>sp_x = sc_offsetX cx + (real col + 0.5 + jx) * sc_cellW cx,
                    sp_y = sc_offsetY cx + (real row + 0.5 + jy) * sc_cellH cx,
                    sp_row = row,
                    sp_col = col,
                    sp_pixelIndex = length points,
                    sp_letterIndex = letterIndex,
                    sp_lineIndex = (case metaAt (sc_letterMeta cx) letterIndex of
                                      Some m \<Rightarrow> lm_lineIndex m | None \<Rightarrow> 0),
                    sp_letterChar = (case metaAt (sc_letterMeta cx) letterIndex of
                                       Some m \<Rightarrow> [lm_char m] | None \<Rightarrow> []),
                    sp_species = None\<rparr>],
                 n + 2))"

text \<open>
  The callback of \<^verbatim>\<open>rowVals.forEach((isOn, col) => ...)\<close>. In
  \<^verbatim>\<open>fractional > 0 && rng() < fractional\<close> the generator is called only when the left operand
  holds.
\<close>

definition cellStep :: "SpawnCtx \<Rightarrow> real \<Rightarrow> nat \<Rightarrow> nat \<times> bool \<Rightarrow> SpawnPoint list \<times> nat \<Rightarrow> SpawnPoint list \<times> nat" where
  "cellStep cx density row = (\<lambda>(col, isOn) (points, n).
     if \<not> isOn then (points, n)
     else
       let baseCopies = \<lfloor>density\<rfloor>;
           fractional = max 0 (min 1 (density - real_of_int baseCopies));
           extra = (if fractional > 0 \<and> sc_draw cx n < fractional then 1 else 0);
           n1 = (if fractional > 0 then n + 1 else n);
           totalCopies = baseCopies + extra
       in if totalCopies \<le> 0 then (points, n1)
          else copyLoop cx row col (nat totalCopies) (points, n1))"

definition rowStep :: "SpawnCtx \<Rightarrow> real \<Rightarrow> nat \<times> bool list \<Rightarrow> SpawnPoint list \<times> nat \<Rightarrow> SpawnPoint list \<times> nat" where
  "rowStep cx density = (\<lambda>(row, rowVals). fold (cellStep cx density row) (enumerate 0 rowVals))"

definition spawnCtx :: "env \<Rightarrow> TextMaskResult \<Rightarrow> MaskBounds \<Rightarrow> SpawnCtx" where
  "spawnCtx e maskResult bounds =
     (let rows = length (tm_mask maskResult);
          cols = (case tm_mask maskResult of [] \<Rightarrow> 0 | r # _ \<Rightarrow> length r);
          width = mb_width bounds;
          height = mb_height bounds
      in \<lparr>sc_draw = rng e (case mb_seed bounds of Some s \<Rightarrow> s | None \<Rightarrow> 2025),
          sc_jitter = (case mb_jitter bounds of Some j \<Rightarrow> j | None \<Rightarrow> 0.15),
          sc_offsetX = (case mb_offsetX bounds of Some v \<Rightarrow> v | None \<Rightarrow> (100 - width) / 2),
          sc_offsetY = (case mb_offsetY bounds of Some v \<Rightarrow> v | None \<Rightarrow> (100 - height) / 2),
          sc_cellW = width / real cols,
          sc_cellH = height / real rows,
          sc_letterMap = tm_letterMap maskResult,
          sc_letterMeta = tm_letterMeta maskResult\<rparr>)"

text \<open>The scan with its final state: the points and the number of calls made to \<^verbatim>\<open>rng\<close>.\<close>

definition scanMask :: "env \<Rightarrow> TextMaskResult \<Rightarrow> MaskBounds \<Rightarrow> real \<Rightarrow> SpawnPoint list \<times> nat" where
  "scanMask e maskResult bounds density =
     fold (rowStep (spawnCtx e maskResult bounds) density)
       (enumerate 0 (tm_mask maskResult)) ([], 0)"

definition generateFlowerPositionsFromMask ::
  "env \<Rightarrow> TextMaskResult \<Rightarrow> MaskBounds \<Rightarrow> real \<Rightarrow> SpawnPoint list" where
  "generateFlowerPositionsFromMask e maskResult bounds density =
     (let rows = length (tm_mask maskResult);
          cols = (case tm_mask maskResult of [] \<Rightarrow> 0 | r # _ \<Rightarrow> length r)
      in if rows = 0 \<or> cols = 0 then []
         else fst (scanMask e maskResult bounds density))"

section \<open>hiddenMessage.ts: assignSpeciesToPoints\<close>

definition DEFAULT_SPECIES :: "string list" where
  "DEFAULT_SPECIES = [''forgetmenot'', ''lily'', ''peony'', ''rose'', ''tulip'', ''sunflower'']"

definition SPECIES_PER_LETTER :: nat where
  "SPECIES_PER_LETTER = 3"

text \<open>\<^verbatim>\<open>xs[i]\<close> of JavaScript: \<^verbatim>\<open>undefined\<close> outside the array.\<close>

definition nthOpt :: "'a list \<Rightarrow> nat \<Rightarrow> 'a option" where
  "nthOpt xs i = (if i < length xs then Some (xs ! i) else None)"

definition basePoolOf :: "string list \<Rightarrow> string list" where
  "basePoolOf enabledSpecies = (if enabledSpecies \<noteq> [] then enabledSpecies else DEFAULT_SPECIES)"

definition fallbackPoolOf :: "string list \<Rightarrow> string list" where
  "fallbackPoolOf enabledSpecies =
     (let basePool = basePoolOf enabledSpecies;
          sanitizedFallback = filter (\<lambda>species. species \<noteq> ''sunflower'') basePool
      in if sanitizedFallback \<noteq> [] then sanitizedFallback else basePool)"

text \<open>
  \<^verbatim>\<open>activePool\<close> of a point: it depends on the point through its \<^verbatim>\<open>letterIndex\<close> only.
\<close>

definition activePoolOf ::
  "string list \<Rightarrow> LetterMeta list \<Rightarrow> string list list \<Rightarrow> int \<Rightarrow> string list" where
  "activePoolOf fallbackPool metas lineSpecies letterIndex =
     (let lineList = (case metaAt metas letterIndex of
                        None \<Rightarrow> fallbackPool
                      | Some m \<Rightarrow> (case nthOpt lineSpecies (lm_lineIndex m) of
                                     Some l \<Rightarrow> l | None \<Rightarrow> fallbackPool));
          filteredList = filter (\<lambda>species. species \<in> set fallbackPool)
                           (filter (\<lambda>species. species \<noteq> ''sunflower'') lineList)
      in if filteredList \<noteq> [] then filteredList else fallbackPool)"

text \<open>
  \<^verbatim>\<open>Array.from({ length: SPECIES_PER_LETTER }, (_, i) => activePool[(startIndex + i) % activePool.length])\<close>
  when the pool has at least three entries, the pool itself otherwise.
\<close>

definition perLetterPoolOf :: "string list \<Rightarrow> nat \<Rightarrow> string list" where
  "perLetterPoolOf activePool startIndex =
     (if length activePool \<ge> SPECIES_PER_LETTER
      then map (\<lambda>i. activePool ! ((startIndex + i) mod length activePool)) [0..<SPECIES_PER_LETTER]
      else activePool)"

text \<open>
  The callback of \<^verbatim>\<open>points.map((point, idx) => ...)\<close> with the two maps \<^verbatim>\<open>letterCounters\<close>
  and \<^verbatim>\<open>letterStartIndex\<close> it updates. The chain of \<^verbatim>\<open>??\<close> takes the first operand that
  is defined.
\<close>

definition assignStep ::
  "string list \<Rightarrow> LetterMeta list \<Rightarrow> string list list \<Rightarrow> nat \<Rightarrow> SpawnPoint \<Rightarrow>
   (int \<rightharpoonup> nat) \<times> (int \<rightharpoonup> nat) \<Rightarrow> SpawnPoint \<times> (int \<rightharpoonup> nat) \<times> (int \<rightharpoonup> nat)" where
  "assignStep fallbackPool metas lineSpecies idx point = (\<lambda>(letterCounters, letterStartIndex).
     let counter = (case letterCounters (sp_letterIndex point) of Some c \<Rightarrow> c | None \<Rightarrow> 0);
         letterCounters1 = letterCounters(sp_letterIndex point \<mapsto> counter + 1);
         meta = metaAt metas (sp_letterIndex point);
         activePool = activePoolOf fallbackPool metas lineSpecies (sp_letterIndex point);
         startIndex = (case letterStartIndex (sp_letterIndex point) of
                         Some s \<Rightarrow> s
                       | None \<Rightarrow> (case meta of
                                    Some m \<Rightarrow> lm_letterIndex m mod length activePool
                                  | None \<Rightarrow> idx mod length activePool));
         letterStartIndex1 = (case letterStartIndex (sp_letterIndex point) of
                                Some s \<Rightarrow> letterStartIndex
                              | None \<Rightarrow> letterStartIndex(sp_letterIndex point \<mapsto> startIndex));
         perLetterPool = perLetterPoolOf activePool startIndex;
         species = (case nthOpt perLetterPool (counter mod length perLetterPool) of
                      Some s \<Rightarrow> Some s
                    | None \<Rightarrow> (case nthOpt activePool (counter mod length activePool) of
                                 Some s \<Rightarrow> Some s
                               | None \<Rightarrow> nthOpt fallbackPool (idx mod length fallbackPool)))
     in (point\<lparr>sp_species := species\<rparr>, letterCounters1, letterStartIndex1))"

text \<open>\<^verbatim>\<open>points.map\<close> from index \<open>idx\<close> on, threading the two maps.\<close>

fun assignLoop ::
  "string list \<Rightarrow> LetterMeta list \<Rightarrow> string list list \<Rightarrow> nat \<Rightarrow>
   (int \<rightharpoonup> nat) \<times> (int \<rightharpoonup> nat) \<Rightarrow> SpawnPoint list \<Rightarrow> SpawnPoint list" where
  "assignLoop fallbackPool metas lineSpecies idx maps [] = []"
| "assignLoop fallbackPool metas lineSpecies idx maps (point # points) =
     (case assignStep fallbackPool metas lineSpecies idx point maps of
        (point1, maps1) \<Rightarrow> point1 # assignLoop fallbackPool metas lineSpecies (idx + 1) maps1 points)"

definition assignSpeciesToPoints ::
  "SpawnPoint list \<Rightarrow> TextMaskResult \<Rightarrow> string list \<Rightarrow> string list list \<Rightarrow> SpawnPoint list" where
  "assignSpeciesToPoints points maskResult enabledSpecies lineSpecies =
     (let fallbackPool = fallbackPoolOf enabledSpecies
      in if fallbackPool = [] then points
         else assignLoop fallbackPool (tm_letterMeta maskResult) lineSpecies 0
                (Map.empty, Map.empty) points)"

section \<open>gardenConfig.ts and garden.ts: the data model\<close>

record Bounds =
  b_width :: real
  b_height :: real
  b_offsetX :: "real option"
  b_offsetY :: "real option"

record TextSetConfig =
  ts_id :: string
  ts_label :: string
  ts_lines :: "string list"
  ts_startDay :: int
  ts_bounds :: Bounds
  ts_density :: real
  ts_jitter :: real
  ts_seed :: int
  ts_maskOptions :: TextMaskOptions
  ts_lineSpecies :: "string list list"

record FlowerData =
  fd_id :: nat
  fd_x :: real
  fd_y :: real
  fd_svg :: "string option"
  fd_scale :: real
  fd_rotation :: real
  fd_zIndex :: int
  fd_dayNumber :: nat
  fd_date :: string
  fd_textSetId :: "string option"

record TextFlowerSlot =
  slot_dayIndex :: int
  slot_point :: SpawnPoint
  slot_textSetId :: string
  slot_svg :: "string option"

definition COLS :: nat where
  "COLS = 64"

definition ROWS :: nat where
  "ROWS = 56"

definition SEED :: int where
  "SEED = 20201027"

definition totalCells :: nat where
  "totalCells = COLS * ROWS"

section \<open>garden.ts: buildSpeciesVariants and precomputeTextFlowers\<close>

text \<open>\<^verbatim>\<open>const [species] = svg.split("-")\<close>: the text before the first hyphen.\<close>

definition speciesOfSvg :: "string \<Rightarrow> string" where
  "speciesOfSvg svg = takeWhile (\<lambda>c. c \<noteq> CHR ''-'') svg"

definition buildSpeciesVariants :: "env \<Rightarrow> (string \<rightharpoonup> string list)" where
  "buildSpeciesVariants e =
     fold (\<lambda>svg m.
             let species = speciesOfSvg svg;
                 m1 = (case m species of None \<Rightarrow> m(species \<mapsto> []) | Some _ \<Rightarrow> m)
             in m1(species \<mapsto> (case m1 species of Some vs \<Rightarrow> vs | None \<Rightarrow> []) @ [svg]))
       (FLOWER_SVGS e) Map.empty"

text \<open>\<^verbatim>\<open>[...new Set(xs)]\<close>: the elements in the order of their first occurrence.\<close>

definition uniqueInOrder :: "'a list \<Rightarrow> 'a list" where
  "uniqueInOrder xs = fold (\<lambda>x acc. if x \<in> set acc then acc else acc @ [x]) xs []"

text \<open>The pipeline of one message: mask, spawn points, species.\<close>

definition maskOf :: "TextSetConfig \<Rightarrow> TextMaskResult" where
  "maskOf ts = buildTextMask (ts_lines ts) (Options (ts_maskOptions ts))"

definition boundsOf :: "TextSetConfig \<Rightarrow> MaskBounds" where
  "boundsOf ts =
     \<lparr>mb_width = b_width (ts_bounds ts),
      mb_height = b_height (ts_bounds ts),
      mb_offsetX = b_offsetX (ts_bounds ts),
      mb_offsetY = b_offsetY (ts_bounds ts),
      mb_seed = Some (ts_seed ts),
      mb_jitter = Some (ts_jitter ts)\<rparr>"

definition assignedPoints :: "env \<Rightarrow> TextSetConfig \<Rightarrow> SpawnPoint list" where
  "assignedPoints e ts =
     (let maskResult = maskOf ts;
          spawnPoints = generateFlowerPositionsFromMask e maskResult (boundsOf ts) (ts_density ts);
          allSpecies = uniqueInOrder (concat (ts_lineSpecies ts))
      in assignSpeciesToPoints spawnPoints maskResult allSpecies (ts_lineSpecies ts))"

text \<open>
  The callback of \<^verbatim>\<open>assignedPoints.forEach((point, index) => ...)\<close>. With an empty list of
  variants \<^verbatim>\<open>index % variants.length\<close> is \<open>NaN\<close> and both reads are \<^verbatim>\<open>undefined\<close>.
\<close>

definition slotOf ::
  "env \<Rightarrow> (string \<rightharpoonup> string list) \<Rightarrow> TextSetConfig \<Rightarrow> nat \<times> SpawnPoint \<Rightarrow> TextFlowerSlot" where
  "slotOf e speciesVariants ts = (\<lambda>(index, point).
     let species = (case sp_species point of Some s \<Rightarrow> s | None \<Rightarrow> ''rose'');
         variants = (case speciesVariants species of
                       Some vs \<Rightarrow> vs
                     | None \<Rightarrow> filter (\<lambda>s. prefix ''rose-'' s) (FLOWER_SVGS e));
         svg = (case nthOpt variants (index mod length variants) of
                  Some v \<Rightarrow> Some v | None \<Rightarrow> nthOpt variants 0)
     in \<lparr>slot_dayIndex = ts_startDay ts + int index,
         slot_point = point,
         slot_textSetId = ts_id ts,
         slot_svg = svg\<rparr>)"

definition slotsOf :: "env \<Rightarrow> (string \<rightharpoonup> string list) \<Rightarrow> TextSetConfig \<Rightarrow> TextFlowerSlot list" where
  "slotsOf e speciesVariants ts =
     map (slotOf e speciesVariants ts) (enumerate 0 (assignedPoints e ts))"

text \<open>
  The slots of all messages in the order of \<^verbatim>\<open>textSets\<close>, then
  \<^verbatim>\<open>slots.sort((a, b) => a.dayIndex - b.dayIndex)\<close>. \<^verbatim>\<open>Array.prototype.sort\<close> is stable
  (ECMAScript 2019), and so is \<open>sort_key\<close>.
\<close>

definition precomputeTextFlowers ::
  "env \<Rightarrow> TextSetConfig list \<Rightarrow> (string \<rightharpoonup> string list) \<Rightarrow> TextFlowerSlot list" where
  "precomputeTextFlowers e textSets speciesVariants =
     sort_key slot_dayIndex (concat (map (slotsOf e speciesVariants) textSets))"

section \<open>garden.ts: generateGarden\<close>

text \<open>
  The Fisher-Yates loop \<^verbatim>\<open>for (let i = indices.length - 1; i > 0; i--)\<close>; the first argument
  is \<open>i\<close>, the state the array and the number of calls made to \<^verbatim>\<open>rng\<close>. The destructuring
  assignment reads both cells before it writes \<open>indices[i]\<close>, then \<open>indices[j]\<close>.
\<close>

fun shuffleLoop :: "(nat \<Rightarrow> real) \<Rightarrow> nat \<Rightarrow> nat list \<times> nat \<Rightarrow> nat list \<times> nat" where
  "shuffleLoop draw 0 (indices, n) = (indices, n)"
| "shuffleLoop draw (Suc k) (indices, n) =
     (let i = Suc k;
          j = nat \<lfloor>draw n * real (i + 1)\<rfloor>
      in shuffleLoop draw k (indices[i := indices ! j, j := indices ! i], n + 1))"

definition shuffled :: "env \<Rightarrow> nat list \<times> nat" where
  "shuffled e = shuffleLoop (rng e SEED) (totalCells - 1) ([0..<totalCells], 0)"

text \<open>
  \<^verbatim>\<open>textSlotMap\<close>: the slots are entered in their sorted order, a later one replaces an
  earlier one with the same key.
\<close>

definition textSlotMapOf :: "env \<Rightarrow> TextSetConfig list \<Rightarrow> (int \<rightharpoonup> TextFlowerSlot)" where
  "textSlotMapOf e textSets =
     fold (\<lambda>slot m. m(slot_dayIndex slot \<mapsto> slot))
       (precomputeTextFlowers e textSets (buildSpeciesVariants e)) Map.empty"

definition cellW :: real where
  "cellW = 100 / real COLS"

definition cellH :: real where
  "cellH = 100 / real ROWS"

text \<open>The three kinds of placement of day \<open>i\<close>; \<open>n\<close> is the number of calls made to \<^verbatim>\<open>rng\<close>.\<close>

definition textFlower :: "env \<Rightarrow> nat \<Rightarrow> TextFlowerSlot \<Rightarrow> FlowerData" where
  "textFlower e i textSlot =
     \<lparr>fd_id = i,
      fd_x = sp_x (slot_point textSlot),
      fd_y = sp_y (slot_point textSlot),
      fd_svg = slot_svg textSlot,
      fd_scale = 1.05,
      fd_rotation = 0,
      fd_zIndex = 200 + int (sp_row (slot_point textSlot)),
      fd_dayNumber = i + 1,
      fd_date = isoDate e i,
      fd_textSetId = Some (slot_textSetId textSlot)\<rparr>"

definition gridFlower :: "env \<Rightarrow> nat \<Rightarrow> nat \<Rightarrow> nat \<Rightarrow> FlowerData" where
  "gridFlower e i cellIndex n =
     (let col = cellIndex mod COLS;
          row = cellIndex div COLS;
          x = real col * cellW + rng e SEED n * cellW;
          y = real row * cellH + rng e SEED (n + 1) * cellH;
          svg = nthOpt (FLOWER_SVGS e) (nat \<lfloor>rng e SEED (n + 2) * real (length (FLOWER_SVGS e))\<rfloor>);
          scale = 0.8 + rng e SEED (n + 3) * 0.4;
          rotation = -15 + rng e SEED (n + 4) * 30
      in \<lparr>fd_id = i, fd_x = x, fd_y = y, fd_svg = svg, fd_scale = scale, fd_rotation = rotation,
          fd_zIndex = \<lfloor>y\<rfloor>, fd_dayNumber = i + 1, fd_date = isoDate e i, fd_textSetId = None\<rparr>)"

definition randomFlower :: "env \<Rightarrow> nat \<Rightarrow> nat \<Rightarrow> FlowerData" where
  "randomFlower e i n =
     (let x = rng e SEED n * 100;
          y = rng e SEED (n + 1) * 100;
          svg = nthOpt (FLOWER_SVGS e) (nat \<lfloor>rng e SEED (n + 2) * real (length (FLOWER_SVGS e))\<rfloor>);
          scale = 0.8 + rng e SEED (n + 3) * 0.4;
          rotation = -15 + rng e SEED (n + 4) * 30
      in \<lparr>fd_id = i, fd_x = x, fd_y = y, fd_svg = svg, fd_scale = scale, fd_rotation = rotation,
          fd_zIndex = \<lfloor>y\<rfloor>, fd_dayNumber = i + 1, fd_date = isoDate e i, fd_textSetId = None\<rparr>)"

text \<open>
  The state of the main loop: \<^verbatim>\<open>flowers\<close>, \<^verbatim>\<open>gridCellUsed\<close> and the number of calls made to
  \<^verbatim>\<open>rng\<close>. \<open>dayStep\<close> is the body of \<^verbatim>\<open>for (let i = 0; i < count; i++)\<close>.
\<close>

record GardenState =
  gs_flowers :: "FlowerData list"
  gs_gridCellUsed :: nat
  gs_calls :: nat

definition dayStep ::
  "env \<Rightarrow> nat list \<Rightarrow> (int \<rightharpoonup> TextFlowerSlot) \<Rightarrow> nat \<Rightarrow> GardenState \<Rightarrow> GardenState" where
  "dayStep e indices textSlotMap i st =
     (case textSlotMap (int i) of
        Some textSlot \<Rightarrow> st\<lparr>gs_flowers := gs_flowers st @ [textFlower e i textSlot]\<rparr>
      | None \<Rightarrow>
          if gs_gridCellUsed st < totalCells
          then \<lparr>gs_flowers = gs_flowers st @
                               [gridFlower e i (indices ! gs_gridCellUsed st) (gs_calls st)],
                gs_gridCellUsed = gs_gridCellUsed st + 1,
                gs_calls = gs_calls st + 5\<rparr>
          else \<lparr>gs_flowers = gs_flowers st @ [randomFlower e i (gs_calls st)],
                gs_gridCellUsed = gs_gridCellUsed st,
                gs_calls = gs_calls st + 5\<rparr>)"

text \<open>The main loop over the days \<open>0, ..., count - 1\<close> from the initial state.\<close>

definition gardenLoop :: "env \<Rightarrow> TextSetConfig list \<Rightarrow> nat \<Rightarrow> GardenState" where
  "gardenLoop e textSets k =
     fold (dayStep e (fst (shuffled e)) (textSlotMapOf e textSets)) [0..<k]
       \<lparr>gs_flowers = [], gs_gridCellUsed = 0, gs_calls = snd (shuffled e)\<rparr>"

definition generateGarden :: "env \<Rightarrow> int \<Rightarrow> TextSetConfig list \<Rightarrow> FlowerData list" where
  "generateGarden e count textSets = gs_flowers (gardenLoop e textSets (nat count))"

section \<open>Sample inputs\<close>

text \<open>
  An environment to run the model on: a generator whose calls return 1/4 and 3/4 in turn,
  a catalogue of four variants, and a date string that does not depend on the day.
\<close>

definition sampleEnv :: env where
  "sampleEnv =
     \<lparr>mulberry32 = (\<lambda>s n. if even n then 1073741824 else 3221225472),
      FLOWER_SVGS = [''rose-pastel'', ''lily-ocean'', ''tulip-sunset'', ''sunflower-earth''],
      isoDate = (\<lambda>i. ''2017-10-27'')\<rparr>"

text \<open>A mask of one cell that is on and belongs to letter 0, and the bounds of a message.\<close>

definition oneCellMask :: TextMaskResult where
  "oneCellMask =
     \<lparr>tm_mask = [[True]], tm_letterMap = [[0]], tm_letters = ''A'',
      tm_letterMeta = [\<lparr>lm_lineIndex = 0, lm_letterIndex = 0, lm_char = CHR ''A''\<rparr>]\<rparr>"

definition sampleBounds :: MaskBounds where
  "sampleBounds =
     \<lparr>mb_width = 80, mb_height = 80, mb_offsetX = Some 10, mb_offsetY = Some 10,
      mb_seed = Some 1337, mb_jitter = Some 0.1\<rparr>"

section \<open>Notions used to state the properties of the species assigner\<close>

text \<open>
  \<open>occurrence points i\<close> is the number of points before position \<open>i\<close> with the letter of point
  \<open>i\<close>: the value of the counter of that letter when point \<open>i\<close> is visited. \<open>firstIndex\<close> is
  the position of the first point of a letter, and \<open>startOf\<close> the value \<^verbatim>\<open>letterStartIndex\<close>
  holds for a letter once the letter has been seen, for a scan that starts at index \<open>idx\<close>
  with the map \<open>st\<close>. \<open>pointAt k\<close> is a point of letter 0 to run the assigner on.
\<close>

definition occurrence :: "SpawnPoint list \<Rightarrow> nat \<Rightarrow> nat" where
  "occurrence points i =
     length (filter (\<lambda>p. sp_letterIndex p = sp_letterIndex (points ! i)) (take i points))"

definition firstIndex :: "int \<Rightarrow> SpawnPoint list \<Rightarrow> nat" where
  "firstIndex L points = length (takeWhile (\<lambda>p. sp_letterIndex p \<noteq> L) points)"

definition startOf :: "string list \<Rightarrow> LetterMeta list \<Rightarrow> string list list \<Rightarrow> nat \<Rightarrow> (int \<rightharpoonup> nat) \<Rightarrow> SpawnPoint list \<Rightarrow> int \<Rightarrow> nat" where
  "startOf fb metas ls idx st points L =
     (case st L of
        Some s \<Rightarrow> s
      | None \<Rightarrow> (case metaAt metas L of
                   Some m \<Rightarrow> lm_letterIndex m mod length (activePoolOf fb metas ls L)
                 | None \<Rightarrow> (idx + firstIndex L points) mod length (activePoolOf fb metas ls L)))"

definition pointAt :: "nat \<Rightarrow> SpawnPoint" where
  "pointAt k =
     \<lparr>sp_x = 0, sp_y = 0, sp_row = 0, sp_col = k, sp_pixelIndex = k, sp_letterIndex = 0,
      sp_lineIndex = 0, sp_letterChar = ''A'', sp_species = None\<rparr>"

section \<open>Notions used to state the properties of the main loop\<close>

text \<open>
  \<open>ordinaryBefore e textSets i\<close> is the number of days before day \<open>i\<close> that have no message
  slot, and \<open>allSlots\<close> the slots of all messages in the order of \<^verbatim>\<open>textSets\<close>, as
  \<^verbatim>\<open>precomputeTextFlowers\<close> has them before it sorts.
\<close>

definition ordinaryBefore :: "env \<Rightarrow> TextSetConfig list \<Rightarrow> nat \<Rightarrow> nat" where
  "ordinaryBefore e textSets i =
     length (filter (\<lambda>d. textSlotMapOf e textSets (int d) = None) [0..<i])"

definition allSlots :: "env \<Rightarrow> TextSetConfig list \<Rightarrow> TextFlowerSlot list" where
  "allSlots e textSets = concat (map (slotsOf e (buildSpeciesVariants e)) textSets)"

text \<open>
  A message to run the engine on: the text L (12 pixels of the 6 by 7 glyph are on), planted
  from day 50 on with one flower for each pixel.
\<close>

definition sampleMessage :: "string \<Rightarrow> TextSetConfig" where
  "sampleMessage name =
     \<lparr>ts_id = name, ts_label = ''sample'', ts_lines = [''L''], ts_startDay = 50,
      ts_bounds = \<lparr>b_width = 80, b_height = 80, b_offsetX = Some 10, b_offsetY = Some 10\<rparr>,
      ts_density = 1, ts_jitter = 0.1, ts_seed = 1337,
      ts_maskOptions = \<lparr>charSpacing = Some 2, lineSpacing = Some 2,
                         pixelScaleX = Some 1, pixelScaleY = Some 1\<rparr>,
      ts_lineSpecies = [[''rose'', ''lily'', ''tulip'']]\<rparr>"

section \<open>Notions used to state where the placements lie\<close>

text \<open>
  The resolved geometry of a message: the offsets of its box (centred when the configuration
  gives none) and the size of its mask. \<open>spawnOK\<close> says that a spawn point lies in a cell of
  the mask, displaced by two values of the generator.
\<close>

definition effOffsetX :: "TextSetConfig \<Rightarrow> real" where
  "effOffsetX ts = (case b_offsetX (ts_bounds ts) of
                      Some v \<Rightarrow> v | None \<Rightarrow> (100 - b_width (ts_bounds ts)) / 2)"

definition effOffsetY :: "TextSetConfig \<Rightarrow> real" where
  "effOffsetY ts = (case b_offsetY (ts_bounds ts) of
                      Some v \<Rightarrow> v | None \<Rightarrow> (100 - b_height (ts_bounds ts)) / 2)"

definition maskCols :: "TextSetConfig \<Rightarrow> nat" where
  "maskCols ts = (case tm_mask (maskOf ts) of [] \<Rightarrow> 0 | r # _ \<Rightarrow> length r)"

definition maskRows :: "TextSetConfig \<Rightarrow> nat" where
  "maskRows ts = length (tm_mask (maskOf ts))"

definition spawnOK :: "SpawnCtx \<Rightarrow> bool list list \<Rightarrow> SpawnPoint \<Rightarrow> bool" where
  "spawnOK cx grid p =
     (sp_row p < length grid \<and> sp_col p < length (grid ! sp_row p)
      \<and> (\<exists>r1 r2. 0 \<le> r1 \<and> r1 < 1 \<and> 0 \<le> r2 \<and> r2 < 1
            \<and> sp_x p = sc_offsetX cx + (real (sp_col p) + 0.5 + (r1 - 0.5) * sc_jitter cx) * sc_cellW cx
            \<and> sp_y p = sc_offsetY cx + (real (sp_row p) + 0.5 + (r2 - 0.5) * sc_jitter cx) * sc_cellH cx))"

section \<open>Notions used to state the properties of the text mask\<close>



section \<open>Properties of the main loop\<close>

lemma gardenLoop_Suc:
  "gardenLoop e textSets (Suc k) =
     dayStep e (fst (shuffled e)) (textSlotMapOf e textSets) k (gardenLoop e textSets k)"
  by (simp add: gardenLoop_def)

lemma dayStep_flowers:
  "\<exists>f. gs_flowers (dayStep e ix m i st) = gs_flowers st @ [f] \<and> fd_id f = i"
  by (simp add: dayStep_def textFlower_def gridFlower_def randomFlower_def Let_def
      split: option.split)

lemma gardenLoop_ids: "map fd_id (gs_flowers (gardenLoop e textSets k)) = [0..<k]"
proof (induction k)
  case 0
  show ?case by (simp add: gardenLoop_def)
next
  case (Suc k)
  obtain f where "gs_flowers (gardenLoop e textSets (Suc k)) = gs_flowers (gardenLoop e textSets k) @ [f]"
    and "fd_id f = k"
    using dayStep_flowers[of e "fst (shuffled e)" "textSlotMapOf e textSets" k "gardenLoop e textSets k"]
    by (auto simp: gardenLoop_Suc)
  with Suc show ?case by simp
qed

lemma gardenLoop_length: "length (gs_flowers (gardenLoop e textSets k)) = k"
  using arg_cong[OF gardenLoop_ids[of e textSets k], of length] by simp

text \<open>
  C1, prefix stability: for \<open>n \<ge> 0\<close> the call with \<open>n + 1\<close> returns the list of the call
  with \<open>n\<close> followed by one more placement, whose id is \<open>n\<close>. So every placement with an id
  below \<open>n\<close> is the same record, in all its fields, in both outputs.
\<close>

theorem generateGarden_prefix_stable:
  assumes "0 \<le> n"
  shows "(\<exists>f. generateGarden e (n + 1) textSets = generateGarden e n textSets @ [f] \<and> fd_id f = nat n)
    \<and> take (nat n) (generateGarden e (n + 1) textSets) = generateGarden e n textSets
    \<and> prefix (generateGarden e n textSets) (generateGarden e (n + 1) textSets)
    \<and> (\<forall>i < nat n. generateGarden e (n + 1) textSets ! i = generateGarden e n textSets ! i)"
proof -
  from assms have n1: "nat (n + 1) = Suc (nat n)" by simp
  obtain f where f: "gs_flowers (gardenLoop e textSets (Suc (nat n))) =
      gs_flowers (gardenLoop e textSets (nat n)) @ [f]"
    and fid: "fd_id f = nat n"
    using dayStep_flowers[of e "fst (shuffled e)" "textSlotMapOf e textSets" "nat n"
        "gardenLoop e textSets (nat n)"]
    by (auto simp: gardenLoop_Suc)
  have app: "generateGarden e (n + 1) textSets = generateGarden e n textSets @ [f]"
    by (simp add: generateGarden_def n1 f)
  have len: "length (generateGarden e n textSets) = nat n"
    by (simp add: generateGarden_def gardenLoop_length)
  show ?thesis using app fid len by (auto simp: nth_append)
qed

theorem generateGarden_prefix_stable_witness:
  "(0::int) \<le> 2
   \<and> take (nat 2) (generateGarden sampleEnv (2 + 1) []) = generateGarden sampleEnv 2 []
   \<and> prefix (generateGarden sampleEnv 2 []) (generateGarden sampleEnv (2 + 1) [])"
  using generateGarden_prefix_stable[of 2 sampleEnv "[]"] by simp

text \<open>
  C3, id density: the ids of the output, in output order, are \<open>0, 1, ..., count - 1\<close>; the
  output has \<open>count\<close> placements when \<open>count \<ge> 0\<close>, and it is empty exactly when
  \<open>count \<le> 0\<close>. The model is a total function: no call fails.
\<close>

theorem generateGarden_id_density:
  "map fd_id (generateGarden e count textSets) = [0..<nat count]
   \<and> int (length (generateGarden e count textSets)) = max 0 count
   \<and> distinct (map fd_id (generateGarden e count textSets))
   \<and> ((generateGarden e count textSets = []) = (count \<le> 0))"
proof -
  have ids: "map fd_id (generateGarden e count textSets) = [0..<nat count]"
    by (simp add: generateGarden_def gardenLoop_ids)
  have len: "length (generateGarden e count textSets) = nat count"
    using arg_cong[OF ids, of length] by simp
  have "(generateGarden e count textSets = []) = (count \<le> 0)"
    using len by (metis length_0_conv nat_le_0 nat_0_iff)
  then show ?thesis using ids len by auto
qed

theorem generateGarden_id_density_witness:
  "map fd_id (generateGarden sampleEnv 3 []) = [0..<nat 3]
   \<and> int (length (generateGarden sampleEnv 3 [])) = max 0 3
   \<and> generateGarden sampleEnv (- 2) [] = []"
  using generateGarden_id_density[of sampleEnv 3 "[]"] generateGarden_id_density[of sampleEnv "- 2" "[]"]
  by simp

section \<open>Properties of the spawn-point generator\<close>

lemma copyLoop_calls:
  "snd (copyLoop cx row col k (points, n)) =
     n + 2 * (if letterAt (sc_letterMap cx) row col = -1 then min 1 k else k)"
  by (induction k arbitrary: points n) (auto simp: Let_def)

text \<open>
  C2 as the code has it: the call that resolves the fractional remainder is made for an
  "on" cell exactly when \<open>density\<close> is not a whole number. The number of calls made for
  an "on" cell is 0 or 1 for the remainder plus 2 for each copy started; an "off" cell
  makes none; and for a whole \<open>density\<close> the cell goes straight to the loop of the
  copies, whose jitter is drawn from the unchanged position of the stream.
\<close>

theorem cellStep_calls:
  "snd (cellStep cx density row (col, True) (points, n)) =
     n + (if density = real_of_int \<lfloor>density\<rfloor> then 0 else 1)
       + 2 * (let copies = nat (\<lfloor>density\<rfloor> +
                (if density \<noteq> real_of_int \<lfloor>density\<rfloor>
                    \<and> sc_draw cx n < density - real_of_int \<lfloor>density\<rfloor> then 1 else 0))
              in if letterAt (sc_letterMap cx) row col = -1 then min 1 copies else copies)
   \<and> snd (cellStep cx density row (col, False) (points, n)) = n
   \<and> (density = real_of_int \<lfloor>density\<rfloor> \<longrightarrow>
        cellStep cx density row (col, True) (points, n) =
          copyLoop cx row col (nat \<lfloor>density\<rfloor>) (points, n))"
proof -
  have fr: "max 0 (min 1 (density - real_of_int \<lfloor>density\<rfloor>)) = density - real_of_int \<lfloor>density\<rfloor>"
    by linarith
  have pos: "(real_of_int \<lfloor>density\<rfloor> < density) = (density \<noteq> real_of_int \<lfloor>density\<rfloor>)"
    by linarith
  show ?thesis
    unfolding cellStep_def
    by (auto simp add: Let_def fr pos copyLoop_calls)
qed

theorem cellStep_calls_witness:
  "(2::real) = real_of_int \<lfloor>2::real\<rfloor>
   \<and> cellStep (spawnCtx sampleEnv oneCellMask sampleBounds) 2 0 (0, True) ([], 0) =
       copyLoop (spawnCtx sampleEnv oneCellMask sampleBounds) 0 0 (nat \<lfloor>2::real\<rfloor>) ([], 0)"
  using cellStep_calls[of "spawnCtx sampleEnv oneCellMask sampleBounds" 2 0 0 "[]" 0] by simp

text \<open>
  C2 as stated fails for a whole density: on the mask of one "on" cell with density 1 the
  scan produces one point and calls the generator twice, not three times, and the jitter of
  the point in x is taken from call 0 of the stream (1/4, which gives x = 48; call 1 would
  give 52).
\<close>

theorem whole_density_counterexample:
  "length (generateFlowerPositionsFromMask sampleEnv oneCellMask sampleBounds 1) = 1
   \<and> snd (scanMask sampleEnv oneCellMask sampleBounds 1) = 2
   \<and> snd (scanMask sampleEnv oneCellMask sampleBounds 1) \<noteq>
       1 + 2 * length (generateFlowerPositionsFromMask sampleEnv oneCellMask sampleBounds 1)
   \<and> map sp_x (generateFlowerPositionsFromMask sampleEnv oneCellMask sampleBounds 1) = [48]"
  by (simp add: generateFlowerPositionsFromMask_def scanMask_def rowStep_def cellStep_def
      spawnCtx_def oneCellMask_def sampleBounds_def sampleEnv_def rng_def letterAt_def
      metaAt_def Let_def)

section \<open>Properties of the species assigner\<close>

lemma activePoolOf_nonempty: "fb \<noteq> [] \<Longrightarrow> activePoolOf fb metas ls L \<noteq> []"
  by (simp add: activePoolOf_def Let_def)

lemma perLetterPoolOf_nonempty: "active \<noteq> [] \<Longrightarrow> perLetterPoolOf active s \<noteq> []"
  by (simp add: perLetterPoolOf_def SPECIES_PER_LETTER_def)

lemma assignStep_species:
  assumes "fb \<noteq> []"
  shows "sp_species (fst (assignStep fb metas ls idx p (cnt, st))) =
     (let L = sp_letterIndex p;
          plp = perLetterPoolOf (activePoolOf fb metas ls L) (startOf fb metas ls idx st [p] L)
      in Some (plp ! ((case cnt L of Some c \<Rightarrow> c | None \<Rightarrow> 0) mod length plp)))"
proof -
  have ne: "perLetterPoolOf (activePoolOf fb metas ls (sp_letterIndex p)) s \<noteq> []" for s
    using assms by (simp add: activePoolOf_nonempty perLetterPoolOf_nonempty)
  show ?thesis
    using ne
    by (simp add: assignStep_def Let_def startOf_def firstIndex_def nthOpt_def
        split: option.split)
qed

lemma assignStep_maps:
  "snd (assignStep fb metas ls idx p (cnt, st)) =
     (cnt(sp_letterIndex p \<mapsto> (case cnt (sp_letterIndex p) of Some c \<Rightarrow> c | None \<Rightarrow> 0) + 1),
      st(sp_letterIndex p \<mapsto> startOf fb metas ls idx st [p] (sp_letterIndex p)))"
  by (cases "st (sp_letterIndex p)")
    (simp_all add: assignStep_def Let_def startOf_def firstIndex_def fun_upd_idem split: option.split)

lemma assignLoop_length [simp]: "length (assignLoop fb metas ls idx maps pts) = length pts"
  by (induction pts arbitrary: idx maps) (auto split: prod.splits)

lemma startOf_known: "st L = Some s \<Longrightarrow> startOf fb metas ls idx st pts L = s"
  by (simp add: startOf_def)

lemma startOf_Cons_same:
  "sp_letterIndex p = L \<Longrightarrow> startOf fb metas ls idx st (p # pts) L = startOf fb metas ls idx st [p] L"
  by (simp add: startOf_def firstIndex_def split: option.splits)

lemma startOf_Cons_other:
  "sp_letterIndex p \<noteq> L \<Longrightarrow>
   startOf fb metas ls idx st (p # pts) L = startOf fb metas ls (idx + 1) (st(sp_letterIndex p \<mapsto> v)) pts L"
  by (simp add: startOf_def firstIndex_def split: option.splits)

lemma occurrence_0: "occurrence (p # pts) 0 = 0"
  by (simp add: occurrence_def)

lemma occurrence_Suc:
  "occurrence (p # pts) (Suc j) =
     (if sp_letterIndex p = sp_letterIndex (pts ! j) then 1 else 0) + occurrence pts j"
  by (simp add: occurrence_def)

lemma assignLoop_species:
  assumes "fb \<noteq> []" "i < length pts"
  shows "sp_species (assignLoop fb metas ls idx (cnt, st) pts ! i) =
     (let L = sp_letterIndex (pts ! i);
          plp = perLetterPoolOf (activePoolOf fb metas ls L) (startOf fb metas ls idx st pts L)
      in Some (plp ! (((case cnt L of Some c \<Rightarrow> c | None \<Rightarrow> 0) + occurrence pts i) mod length plp)))"
  using assms(2)
proof (induction pts arbitrary: idx cnt st i)
  case Nil
  then show ?case by simp
next
  case (Cons p pts)
  define cnt1 where "cnt1 = cnt(sp_letterIndex p \<mapsto> (case cnt (sp_letterIndex p) of Some c \<Rightarrow> c | None \<Rightarrow> 0) + 1)"
  define st1 where "st1 = st(sp_letterIndex p \<mapsto> startOf fb metas ls idx st [p] (sp_letterIndex p))"
  define p1 where "p1 = fst (assignStep fb metas ls idx p (cnt, st))"
  have step: "assignStep fb metas ls idx p (cnt, st) = (p1, cnt1, st1)"
    using assignStep_maps[of fb metas ls idx p cnt st]
    unfolding p1_def cnt1_def st1_def by (metis prod.collapse)
  have unf: "assignLoop fb metas ls idx (cnt, st) (p # pts) =
      p1 # assignLoop fb metas ls (idx + 1) (cnt1, st1) pts"
    by (simp add: step)
  show ?case
  proof (cases i)
    case 0
    have "sp_species p1 =
       (let L = sp_letterIndex p;
          plp = perLetterPoolOf (activePoolOf fb metas ls L) (startOf fb metas ls idx st [p] L)
        in Some (plp ! ((case cnt L of Some c \<Rightarrow> c | None \<Rightarrow> 0) mod length plp)))"
      unfolding p1_def by (rule assignStep_species[OF assms(1)])
    then show ?thesis unfolding unf 0
      by (simp add: Let_def occurrence_0
          startOf_Cons_same[of p "sp_letterIndex p" fb metas ls idx st pts])
  next
    case (Suc j)
    then have j: "j < length pts" using Cons.prems by simp
    note IH = Cons.IH[OF j, of "idx + 1" cnt1 st1]
    define L where "L = sp_letterIndex (pts ! j)"
    have st_eq: "startOf fb metas ls (idx + 1) st1 pts L = startOf fb metas ls idx st (p # pts) L"
    proof (cases "sp_letterIndex p = L")
      case True
      then show ?thesis
        by (simp add: startOf_known st1_def startOf_Cons_same[of p L fb metas ls idx st pts])
    next
      case False
      then show ?thesis
        using startOf_Cons_other[of p L fb metas ls idx st pts] unfolding st1_def by simp
    qed
    have cnt_eq: "(case cnt1 L of Some c \<Rightarrow> c | None \<Rightarrow> 0) + occurrence pts j =
        (case cnt L of Some c \<Rightarrow> c | None \<Rightarrow> 0) + occurrence (p # pts) (Suc j)"
      by (simp add: cnt1_def occurrence_Suc L_def)
    have "sp_species (assignLoop fb metas ls (idx + 1) (cnt1, st1) pts ! j) =
       Some (perLetterPoolOf (activePoolOf fb metas ls L) (startOf fb metas ls (idx + 1) st1 pts L) !
          (((case cnt1 L of Some c \<Rightarrow> c | None \<Rightarrow> 0) + occurrence pts j) mod
            length (perLetterPoolOf (activePoolOf fb metas ls L) (startOf fb metas ls (idx + 1) st1 pts L))))"
      using IH unfolding L_def Let_def .
    then show ?thesis
      unfolding unf Suc st_eq cnt_eq by (simp add: Let_def L_def)
  qed
qed


lemma mod_shift_neq:
  fixes s n d1 d2 :: nat
  assumes "d1 < d2" "d2 < n"
  shows "(s + d1) mod n \<noteq> (s + d2) mod n"
proof
  assume eq: "(s + d1) mod n = (s + d2) mod n"
  have "s + d1 \<le> s + d2" using assms by simp
  then have "n dvd (s + d2) - (s + d1)"
    using eq mod_eq_dvd_iff_nat[of "s + d1" "s + d2" n] by simp
  then have "n dvd d2 - d1" by simp
  moreover have "0 < d2 - d1" "d2 - d1 < n" using assms by simp_all
  ultimately show False using nat_dvd_not_less by blast
qed

lemma perLetterPoolOf_three:
  assumes "3 \<le> length active" "distinct active"
  shows "length (perLetterPoolOf active s) = 3 \<and> distinct (perLetterPoolOf active s)"
proof -
  let ?n = "length active"
  have upt3: "[0..<3] = [0, 1, 2::nat]" by (simp add: upt_rec)
  have plp: "perLetterPoolOf active s =
      [active ! ((s + 0) mod ?n), active ! ((s + 1) mod ?n), active ! ((s + 2) mod ?n)]"
    using assms(1) by (simp add: perLetterPoolOf_def SPECIES_PER_LETTER_def upt3)
  have pos: "0 < ?n" using assms(1) by linarith
  have rng: "(s + d) mod ?n < ?n" for d by (rule mod_less_divisor[OF pos])
  have neq: "active ! ((s + d1) mod ?n) \<noteq> active ! ((s + d2) mod ?n)" if "d1 < d2" "d2 < 3" for d1 d2
    using nth_eq_iff_index_eq[OF assms(2) rng[of d1] rng[of d2]] mod_shift_neq[of d1 d2 ?n s] that assms(1)
    by simp
  have "active ! ((s + 0) mod ?n) \<noteq> active ! ((s + 1) mod ?n)"
       "active ! ((s + 0) mod ?n) \<noteq> active ! ((s + 2) mod ?n)"
       "active ! ((s + 1) mod ?n) \<noteq> active ! ((s + 2) mod ?n)"
    by (rule neq; simp)+
  then show ?thesis unfolding plp by simp
qed

lemma DEFAULT_SPECIES_nonempty: "DEFAULT_SPECIES \<noteq> []"
  by (simp add: DEFAULT_SPECIES_def)

lemma fallbackPoolOf_nonempty: "fallbackPoolOf enabledSpecies \<noteq> []"
  by (simp add: fallbackPoolOf_def basePoolOf_def Let_def DEFAULT_SPECIES_nonempty)

lemma assignSpeciesToPoints_species:
  assumes "i < length points"
  shows "sp_species (assignSpeciesToPoints points maskResult enabledSpecies lineSpecies ! i) =
     (let fb = fallbackPoolOf enabledSpecies;
          L = sp_letterIndex (points ! i);
          plp = perLetterPoolOf (activePoolOf fb (tm_letterMeta maskResult) lineSpecies L)
                  (startOf fb (tm_letterMeta maskResult) lineSpecies 0 Map.empty points L)
      in Some (plp ! (occurrence points i mod length plp)))"
  using assignLoop_species[OF fallbackPoolOf_nonempty assms, of enabledSpecies
      "tm_letterMeta maskResult" lineSpecies 0 Map.empty Map.empty]
  by (simp add: assignSpeciesToPoints_def Let_def fallbackPoolOf_nonempty)

text \<open>
  C7 as the code has it: when the active pool of a letter (its line palette without
  \<^verbatim>\<open>sunflower\<close> and without species outside the enabled pool, or the fallback pool) has at
  least three entries and no entry twice, three consecutive points of that letter, by
  occurrence order, get three different species.
\<close>

theorem letter_local_variety:
  assumes "a < length points" "b < length points" "c < length points"
    and "sp_letterIndex (points ! a) = L" "sp_letterIndex (points ! b) = L"
      "sp_letterIndex (points ! c) = L"
    and "occurrence points b = occurrence points a + 1"
      "occurrence points c = occurrence points a + 2"
    and "3 \<le> length (activePoolOf (fallbackPoolOf enabledSpecies) (tm_letterMeta maskResult) lineSpecies L)"
    and "distinct (activePoolOf (fallbackPoolOf enabledSpecies) (tm_letterMeta maskResult) lineSpecies L)"
  shows "\<exists>sa sb sc.
      sp_species (assignSpeciesToPoints points maskResult enabledSpecies lineSpecies ! a) = Some sa
    \<and> sp_species (assignSpeciesToPoints points maskResult enabledSpecies lineSpecies ! b) = Some sb
    \<and> sp_species (assignSpeciesToPoints points maskResult enabledSpecies lineSpecies ! c) = Some sc
    \<and> sa \<noteq> sb \<and> sb \<noteq> sc \<and> sa \<noteq> sc"
proof -
  define fb where "fb = fallbackPoolOf enabledSpecies"
  define plp where "plp = perLetterPoolOf (activePoolOf fb (tm_letterMeta maskResult) lineSpecies L)
                  (startOf fb (tm_letterMeta maskResult) lineSpecies 0 Map.empty points L)"
  have three: "length plp = 3" and dist: "distinct plp"
    using perLetterPoolOf_three[OF assms(9,10)] unfolding plp_def fb_def by simp_all
  have sp: "sp_species (assignSpeciesToPoints points maskResult enabledSpecies lineSpecies ! i) =
      Some (plp ! (occurrence points i mod 3))"
    if "i < length points" "sp_letterIndex (points ! i) = L" for i
    using assignSpeciesToPoints_species[OF that(1), of maskResult enabledSpecies lineSpecies] that(2) three
    unfolding plp_def fb_def by (simp add: Let_def)
  let ?k = "occurrence points a"
  have neq: "plp ! (i mod 3) \<noteq> plp ! (j mod 3)" if "i mod 3 \<noteq> j mod 3" for i j
    using nth_eq_iff_index_eq[OF dist, of "i mod 3" "j mod 3"] three that by simp
  have m1: "?k mod 3 \<noteq> (?k + 1) mod 3" and m2: "(?k + 1) mod 3 \<noteq> (?k + 2) mod 3"
    and m3: "?k mod 3 \<noteq> (?k + 2) mod 3"
    by presburger+
  show ?thesis
    using sp[OF assms(1,4)] sp[OF assms(2,5)] sp[OF assms(3,6)] assms(7,8)
      neq[OF m1] neq[OF m2] neq[OF m3]
    by simp
qed

theorem letter_local_variety_witness:
  "\<exists>sa sb sc.
      sp_species (assignSpeciesToPoints [pointAt 0, pointAt 1, pointAt 2] oneCellMask
        [''rose'', ''lily'', ''tulip''] [[''rose'', ''lily'', ''tulip'']] ! 0) = Some sa
    \<and> sp_species (assignSpeciesToPoints [pointAt 0, pointAt 1, pointAt 2] oneCellMask
        [''rose'', ''lily'', ''tulip''] [[''rose'', ''lily'', ''tulip'']] ! 1) = Some sb
    \<and> sp_species (assignSpeciesToPoints [pointAt 0, pointAt 1, pointAt 2] oneCellMask
        [''rose'', ''lily'', ''tulip''] [[''rose'', ''lily'', ''tulip'']] ! 2) = Some sc
    \<and> sa \<noteq> sb \<and> sb \<noteq> sc \<and> sa \<noteq> sc"
proof -
  let ?pts = "[pointAt 0, pointAt 1, pointAt 2]"
  have pool: "activePoolOf (fallbackPoolOf [''rose'', ''lily'', ''tulip'']) (tm_letterMeta oneCellMask)
      [[''rose'', ''lily'', ''tulip'']] 0 = [''rose'', ''lily'', ''tulip'']"
    by (simp add: activePoolOf_def fallbackPoolOf_def basePoolOf_def metaAt_def nthOpt_def
        oneCellMask_def Let_def)
  have h1: "0 < length ?pts" and h2: "1 < length ?pts" and h3: "2 < length ?pts" by simp_all
  have l1: "sp_letterIndex (?pts ! 0) = 0" and l2: "sp_letterIndex (?pts ! 1) = 0"
    and l3: "sp_letterIndex (?pts ! 2) = 0"
    by (simp_all add: pointAt_def)
  have o1: "occurrence ?pts 1 = occurrence ?pts 0 + 1"
    and o2: "occurrence ?pts 2 = occurrence ?pts 0 + 2"
    by (simp_all add: occurrence_def pointAt_def)
  have p1: "3 \<le> length (activePoolOf (fallbackPoolOf [''rose'', ''lily'', ''tulip''])
      (tm_letterMeta oneCellMask) [[''rose'', ''lily'', ''tulip'']] 0)"
    and p2: "distinct (activePoolOf (fallbackPoolOf [''rose'', ''lily'', ''tulip''])
      (tm_letterMeta oneCellMask) [[''rose'', ''lily'', ''tulip'']] 0)"
    unfolding pool by simp_all
  show ?thesis
    by (rule letter_local_variety[OF h1 h2 h3 l1 l2 l3 o1 o2 p1 p2])
qed

text \<open>
  C7 as stated fails when a palette lists a species more than once: with the palette
  rose, rose, rose, lily, tulip (five entries, three species) the active pool of letter 0
  is the palette itself, and its first three points are all assigned rose.
\<close>

theorem duplicate_palette_counterexample:
  "map sp_species (assignSpeciesToPoints [pointAt 0, pointAt 1, pointAt 2] oneCellMask
      [''rose'', ''lily'', ''tulip''] [[''rose'', ''rose'', ''rose'', ''lily'', ''tulip'']]) =
     [Some ''rose'', Some ''rose'', Some ''rose'']
   \<and> activePoolOf (fallbackPoolOf [''rose'', ''lily'', ''tulip'']) (tm_letterMeta oneCellMask)
        [[''rose'', ''rose'', ''rose'', ''lily'', ''tulip'']] 0 =
       [''rose'', ''rose'', ''rose'', ''lily'', ''tulip'']"
  by (simp add: assignSpeciesToPoints_def assignStep_def fallbackPoolOf_def basePoolOf_def
      activePoolOf_def perLetterPoolOf_def SPECIES_PER_LETTER_def nthOpt_def metaAt_def
      pointAt_def oneCellMask_def Let_def upt_rec)

section \<open>The state of the main loop and the shuffled grid\<close>

lemma gardenLoop_0:
  "gardenLoop e textSets 0 = \<lparr>gs_flowers = [], gs_gridCellUsed = 0, gs_calls = snd (shuffled e)\<rparr>"
  by (simp add: gardenLoop_def)

lemma ordinaryBefore_Suc:
  "ordinaryBefore e textSets (Suc i) =
     ordinaryBefore e textSets i + (if textSlotMapOf e textSets (int i) = None then 1 else 0)"
  by (simp add: ordinaryBefore_def)

lemma gardenLoop_cursor:
  "gs_gridCellUsed (gardenLoop e textSets i) = min totalCells (ordinaryBefore e textSets i)
   \<and> gs_calls (gardenLoop e textSets i) = snd (shuffled e) + 5 * ordinaryBefore e textSets i"
proof (induction i)
  case 0
  show ?case by (simp add: gardenLoop_0 ordinaryBefore_def)
next
  case (Suc i)
  show ?case
  proof (cases "textSlotMapOf e textSets (int i)")
    case None
    then show ?thesis using Suc
      by (simp add: gardenLoop_Suc dayStep_def ordinaryBefore_Suc)
  next
    case (Some slot)
    then show ?thesis using Suc
      by (simp add: gardenLoop_Suc dayStep_def ordinaryBefore_Suc)
  qed
qed

lemma gardenLoop_take:
  "i \<le> k \<Longrightarrow> take i (gs_flowers (gardenLoop e textSets k)) = gs_flowers (gardenLoop e textSets i)"
proof (induction k)
  case 0
  then show ?case by (simp add: gardenLoop_0)
next
  case (Suc k)
  obtain f where f: "gs_flowers (gardenLoop e textSets (Suc k)) = gs_flowers (gardenLoop e textSets k) @ [f]"
    using dayStep_flowers[of e "fst (shuffled e)" "textSlotMapOf e textSets" k "gardenLoop e textSets k"]
    by (auto simp: gardenLoop_Suc)
  show ?case
  proof (cases "i = Suc k")
    case True
    then show ?thesis using gardenLoop_length[of e textSets "Suc k"] by simp
  next
    case False
    then have "i \<le> k" using Suc.prems by simp
    then show ?thesis using Suc.IH f gardenLoop_length[of e textSets k] by simp
  qed
qed

lemma dayStep_last:
  "last (gs_flowers (dayStep e ix m i st)) =
     (case m (int i) of
        Some slot \<Rightarrow> textFlower e i slot
      | None \<Rightarrow> if gs_gridCellUsed st < totalCells
                then gridFlower e i (ix ! gs_gridCellUsed st) (gs_calls st)
                else randomFlower e i (gs_calls st))"
  by (simp add: dayStep_def split: option.split)

lemma generateGarden_nth:
  assumes "int i < count"
  shows "generateGarden e count textSets ! i =
     (case textSlotMapOf e textSets (int i) of
        Some slot \<Rightarrow> textFlower e i slot
      | None \<Rightarrow>
          if ordinaryBefore e textSets i < totalCells
          then gridFlower e i (fst (shuffled e) ! ordinaryBefore e textSets i)
                 (snd (shuffled e) + 5 * ordinaryBefore e textSets i)
          else randomFlower e i (snd (shuffled e) + 5 * ordinaryBefore e textSets i))"
proof -
  have le: "Suc i \<le> nat count" using assms by simp
  have "generateGarden e count textSets ! i = take (Suc i) (gs_flowers (gardenLoop e textSets (nat count))) ! i"
    by (simp add: generateGarden_def)
  also have "\<dots> = gs_flowers (gardenLoop e textSets (Suc i)) ! i"
    by (simp only: gardenLoop_take[OF le])
  also have "\<dots> = last (gs_flowers (gardenLoop e textSets (Suc i)))"
    using gardenLoop_length[of e textSets "Suc i"]
    by (metis diff_Suc_1 last_conv_nth length_0_conv nat.distinct(1))
  also have "\<dots> = (case textSlotMapOf e textSets (int i) of
        Some slot \<Rightarrow> textFlower e i slot
      | None \<Rightarrow>
          if ordinaryBefore e textSets i < totalCells
          then gridFlower e i (fst (shuffled e) ! ordinaryBefore e textSets i)
                 (snd (shuffled e) + 5 * ordinaryBefore e textSets i)
          else randomFlower e i (snd (shuffled e) + 5 * ordinaryBefore e textSets i))"
    using gardenLoop_cursor[of e textSets i]
    by (simp add: gardenLoop_Suc dayStep_last split: option.split)
  finally show ?thesis .
qed

lemma fold_upd_lookup:
  "fold (\<lambda>slot m. m(key slot \<mapsto> slot)) xs m0 d =
     (if filter (\<lambda>s. key s = d) xs = [] then m0 d else Some (last (filter (\<lambda>s. key s = d) xs)))"
  by (induction xs arbitrary: m0) auto

lemma textSlotMapOf_lookup:
  "textSlotMapOf e textSets d =
     (if filter (\<lambda>s. slot_dayIndex s = d) (allSlots e textSets) = [] then None
      else Some (last (filter (\<lambda>s. slot_dayIndex s = d) (allSlots e textSets))))"
  by (simp add: textSlotMapOf_def precomputeTextFlowers_def fold_upd_lookup sort_key_stable allSlots_def)


lemma unit_fraction: "(k::nat) < 4294967296 \<Longrightarrow> 0 \<le> real k / 4294967296 \<and> real k / 4294967296 < 1"
  by simp

lemma rng_range: "0 \<le> rng e s n \<and> rng e s n < 1"
proof -
  have "unat (mulberry32 e s n) < 2 ^ LENGTH(32)" by (rule unsigned_less)
  then have a: "unat (mulberry32 e s n) < 4294967296" by simp
  show ?thesis unfolding rng_def by (rule unit_fraction[OF a])
qed

lemma draw_index_le:
  assumes "0 \<le> r" "r < 1"
  shows "nat \<lfloor>r * real (Suc m)\<rfloor> \<le> m"
proof -
  have "r * real (Suc m) < real (Suc m)" using assms by simp
  then have "\<lfloor>r * real (Suc m)\<rfloor> < int (Suc m)" by (simp add: floor_less_iff)
  then show ?thesis by simp
qed

lemma shuffleLoop_perm:
  assumes "\<And>n. 0 \<le> draw n \<and> draw n < 1" "k < length xs"
  shows "length (fst (shuffleLoop draw k (xs, n))) = length xs
       \<and> set (fst (shuffleLoop draw k (xs, n))) = set xs
       \<and> distinct (fst (shuffleLoop draw k (xs, n))) = distinct xs
       \<and> snd (shuffleLoop draw k (xs, n)) = n + k"
  using assms(2)
proof (induction k arbitrary: xs n)
  case 0
  show ?case by simp
next
  case (Suc k)
  define j where "j = nat \<lfloor>draw n * real (Suc k + 1)\<rfloor>"
  define ys where "ys = xs[Suc k := xs ! j, j := xs ! Suc k]"
  have jle: "j \<le> Suc k"
    unfolding j_def using draw_index_le[of "draw n" "Suc k"] assms(1)[of n] by simp
  have jlt: "j < length xs" using jle Suc.prems by simp
  have len: "length ys = length xs" by (simp add: ys_def)
  have st: "set ys = set xs" unfolding ys_def by (rule set_swap[OF Suc.prems jlt])
  have ds: "distinct ys = distinct xs" unfolding ys_def by (rule distinct_swap[OF Suc.prems jlt])
  have k: "k < length ys" using Suc.prems len by simp
  have unf: "shuffleLoop draw (Suc k) (xs, n) = shuffleLoop draw k (ys, n + 1)"
    by (simp add: Let_def j_def ys_def)
  show ?case unfolding unf using Suc.IH[OF k, of "n + 1"] len st ds by simp
qed

lemma totalCells_value: "totalCells = 3584"
  by (simp add: totalCells_def COLS_def ROWS_def)

lemma shuffled_perm:
  "length (fst (shuffled e)) = totalCells \<and> set (fst (shuffled e)) = {0..<totalCells}
   \<and> distinct (fst (shuffled e)) \<and> snd (shuffled e) = totalCells - 1"
proof -
  have k: "totalCells - 1 < length [0..<totalCells]" by (simp add: totalCells_value)
  show ?thesis
    using shuffleLoop_perm[of "rng e SEED" "totalCells - 1" "[0..<totalCells]" 0, OF rng_range k]
    by (simp add: shuffled_def)
qed

lemma ordinaryBefore_mono: "i \<le> j \<Longrightarrow> ordinaryBefore e textSets i \<le> ordinaryBefore e textSets j"
proof (induction j)
  case 0
  then show ?case by simp
next
  case (Suc j)
  then show ?case by (cases "i = Suc j") (auto simp: ordinaryBefore_Suc)
qed

text \<open>
  C4, no grid collision: the shuffled array is a permutation of the cell indices
  \<open>0, ..., 3583\<close>. Two ordinary days \<open>i < i'\<close> of one call, the later one reached while
  fewer than 3584 ordinary placements have been emitted, take the entries of the
  permutation at the positions \<open>ordinaryBefore i < ordinaryBefore i'\<close>, which are two
  different cells.
\<close>

theorem no_grid_collision:
  assumes "i < i'" "int i' < count"
    and "textSlotMapOf e textSets (int i) = None" "textSlotMapOf e textSets (int i') = None"
    and "ordinaryBefore e textSets i' < totalCells"
  shows "generateGarden e count textSets ! i =
           gridFlower e i (fst (shuffled e) ! ordinaryBefore e textSets i)
             (snd (shuffled e) + 5 * ordinaryBefore e textSets i)
       \<and> generateGarden e count textSets ! i' =
           gridFlower e i' (fst (shuffled e) ! ordinaryBefore e textSets i')
             (snd (shuffled e) + 5 * ordinaryBefore e textSets i')
       \<and> ordinaryBefore e textSets i < ordinaryBefore e textSets i'
       \<and> fst (shuffled e) ! ordinaryBefore e textSets i \<noteq> fst (shuffled e) ! ordinaryBefore e textSets i'
       \<and> distinct (fst (shuffled e)) \<and> set (fst (shuffled e)) = {0..<totalCells}
       \<and> totalCells = 3584"
proof -
  have lt: "ordinaryBefore e textSets i < ordinaryBefore e textSets i'"
    using ordinaryBefore_mono[of "Suc i" i' e textSets] assms(1,3)
    by (simp add: ordinaryBefore_Suc)
  have b': "ordinaryBefore e textSets i' < length (fst (shuffled e))"
    using assms(5) shuffled_perm[of e] by simp
  have b: "ordinaryBefore e textSets i < length (fst (shuffled e))"
    using lt b' by simp
  have neq: "fst (shuffled e) ! ordinaryBefore e textSets i \<noteq> fst (shuffled e) ! ordinaryBefore e textSets i'"
    using nth_eq_iff_index_eq[of "fst (shuffled e)", OF _ b b'] shuffled_perm[of e] lt by simp
  have ci: "int i < count" using assms(1,2) by simp
  have fi: "generateGarden e count textSets ! i =
           gridFlower e i (fst (shuffled e) ! ordinaryBefore e textSets i)
             (snd (shuffled e) + 5 * ordinaryBefore e textSets i)"
    using generateGarden_nth[OF ci, of e textSets] assms(3,5) lt by simp
  have fi': "generateGarden e count textSets ! i' =
           gridFlower e i' (fst (shuffled e) ! ordinaryBefore e textSets i')
             (snd (shuffled e) + 5 * ordinaryBefore e textSets i')"
    using generateGarden_nth[OF assms(2), of e textSets] assms(4,5) by simp
  show ?thesis using fi fi' lt neq shuffled_perm[of e] totalCells_value by simp
qed

theorem no_grid_collision_witness:
  "generateGarden sampleEnv 2 [] ! 0 =
           gridFlower sampleEnv 0 (fst (shuffled sampleEnv) ! ordinaryBefore sampleEnv [] 0)
             (snd (shuffled sampleEnv) + 5 * ordinaryBefore sampleEnv [] 0)
   \<and> fst (shuffled sampleEnv) ! ordinaryBefore sampleEnv [] 0 \<noteq>
       fst (shuffled sampleEnv) ! ordinaryBefore sampleEnv [] 1"
proof -
  have m: "textSlotMapOf sampleEnv [] d = None" for d
    by (simp add: textSlotMapOf_def precomputeTextFlowers_def)
  have o: "ordinaryBefore sampleEnv [] 1 < totalCells"
    by (simp add: ordinaryBefore_def m totalCells_value)
  have i: "(0::nat) < 1" and c: "int 1 < 2" by simp_all
  show ?thesis using no_grid_collision[OF i c m m o] by simp
qed

section \<open>The day-index lookup of the message slots\<close>

lemma slot_dayIndex_slotOf [simp]:
  "slot_dayIndex (slotOf e sv ts (k, p)) = ts_startDay ts + int k"
  by (simp add: slotOf_def Let_def)

lemma slot_fields_slotOf [simp]:
  "slot_textSetId (slotOf e sv ts (k, p)) = ts_id ts" "slot_point (slotOf e sv ts (k, p)) = p"
  by (simp_all add: slotOf_def Let_def)

lemma filter_enumerate_day:
  "filter (\<lambda>sl. slot_dayIndex sl = d) (map (slotOf e sv ts) (enumerate n pts)) =
     (if ts_startDay ts + int n \<le> d \<and> d < ts_startDay ts + int n + int (length pts)
      then [slotOf e sv ts (nat (d - ts_startDay ts), pts ! (nat (d - ts_startDay ts) - n))]
      else [])"
proof (induction pts arbitrary: n)
  case Nil
  show ?case by simp
next
  case (Cons p pts)
  show ?case
  proof (cases "ts_startDay ts + int n = d")
    case True
    then have "nat (d - ts_startDay ts) = n" by auto
    then show ?thesis using True Cons.IH[of "Suc n"] by simp
  next
    case False
    then have "n < nat (d - ts_startDay ts)" if "ts_startDay ts + int n \<le> d"
      using that by auto
    then have "(p # pts) ! (nat (d - ts_startDay ts) - n) = pts ! (nat (d - ts_startDay ts) - Suc n)"
      if "ts_startDay ts + int n \<le> d"
      using that by (metis Suc_diff_Suc diff_Suc_eq_diff_pred nth_Cons_Suc zero_less_diff Suc_pred)
    then show ?thesis using False Cons.IH[of "Suc n"] by auto
  qed
qed

lemma filter_slotsOf:
  "filter (\<lambda>sl. slot_dayIndex sl = d) (slotsOf e sv ts) =
     (if ts_startDay ts \<le> d \<and> d < ts_startDay ts + int (length (assignedPoints e ts))
      then [slotOf e sv ts (nat (d - ts_startDay ts), assignedPoints e ts ! nat (d - ts_startDay ts))]
      else [])"
  using filter_enumerate_day[of d e sv ts 0 "assignedPoints e ts"] by (simp add: slotsOf_def)

lemma allSlots_append: "allSlots e (A @ B) = allSlots e A @ allSlots e B"
  by (simp add: allSlots_def)

lemma allSlots_Cons: "allSlots e (ts # B) = slotsOf e (buildSpeciesVariants e) ts @ allSlots e B"
  by (simp add: allSlots_def)

lemma filter_allSlots_empty:
  assumes "\<And>tb. tb \<in> set B \<Longrightarrow>
     \<not> (ts_startDay tb \<le> d \<and> d < ts_startDay tb + int (length (assignedPoints e tb)))"
  shows "filter (\<lambda>sl. slot_dayIndex sl = d) (allSlots e B) = []"
  using assms
proof (induction B)
  case Nil
  show ?case by (simp add: allSlots_def)
next
  case (Cons tb B)
  then show ?case by (simp add: allSlots_Cons filter_slotsOf)
qed

lemma textSlotMapOf_last_wins:
  assumes "k < length (assignedPoints e ts)"
    and "\<And>tb. tb \<in> set B \<Longrightarrow>
     \<not> (ts_startDay tb \<le> ts_startDay ts + int k
        \<and> ts_startDay ts + int k < ts_startDay tb + int (length (assignedPoints e tb)))"
  shows "textSlotMapOf e (A @ ts # B) (ts_startDay ts + int k) =
     Some (slotOf e (buildSpeciesVariants e) ts (k, assignedPoints e ts ! k))"
proof -
  let ?d = "ts_startDay ts + int k"
  have B: "filter (\<lambda>sl. slot_dayIndex sl = ?d) (allSlots e B) = []"
    by (rule filter_allSlots_empty) (use assms(2) in blast)
  have T: "filter (\<lambda>sl. slot_dayIndex sl = ?d) (slotsOf e (buildSpeciesVariants e) ts) =
      [slotOf e (buildSpeciesVariants e) ts (k, assignedPoints e ts ! k)]"
    using assms(1) by (simp add: filter_slotsOf)
  show ?thesis
    by (simp add: textSlotMapOf_lookup allSlots_append allSlots_Cons B T)
qed


lemma glyph_dims: "baseCharWidth = 6" "baseCharHeight = 7"
  by (simp_all add: baseCharWidth_def baseCharHeight_def sampleGlyph_def glyphOf_def
      PIXEL_FONT_def isWhitespace_def)

lemma sampleMessage_mask:
  "maskOf (sampleMessage n) =
     \<lparr>tm_mask = [[True, False, False, False, False, False],
                 [True, False, False, False, False, False],
                 [True, False, False, False, False, False],
                 [True, False, False, False, False, False],
                 [True, False, False, False, False, False],
                 [True, False, False, False, False, False],
                 [True, True, True, True, True, True]],
      tm_letterMap = [[0, -1, -1, -1, -1, -1],
                      [0, -1, -1, -1, -1, -1],
                      [0, -1, -1, -1, -1, -1],
                      [0, -1, -1, -1, -1, -1],
                      [0, -1, -1, -1, -1, -1],
                      [0, -1, -1, -1, -1, -1],
                      [0, 0, 0, 0, 0, 0]],
      tm_letters = ''L'',
      tm_letterMeta = [\<lparr>lm_lineIndex = 0, lm_letterIndex = 0, lm_char = CHR ''L''\<rparr>]\<rparr>"
  by (simp add: maskOf_def sampleMessage_def buildTextMask_def glyph_dims lineStep_def charStep_def
     stampGlyph_def stampScaled_def stampPixel_def setCell_def glyphOf_def PIXEL_FONT_def
     toUpperCase_def toUpperChar_def Let_def upt_rec eval_nat_numeral)

lemma assignSpeciesToPoints_length:
  "length (assignSpeciesToPoints points maskResult enabledSpecies lineSpecies) = length points"
  by (simp add: assignSpeciesToPoints_def Let_def)

lemma sampleMessage_points: "length (assignedPoints sampleEnv (sampleMessage n)) = 12"
  unfolding assignedPoints_def Let_def assignSpeciesToPoints_length sampleMessage_mask
  by (simp add: generateFlowerPositionsFromMask_def scanMask_def rowStep_def cellStep_def
      spawnCtx_def boundsOf_def sampleMessage_def letterAt_def metaAt_def Let_def)

lemma single_id:
  assumes "map fd_id fs = [0..<n]" "d < n"
  shows "length (filter (\<lambda>f. fd_id f = d) fs) = 1"
proof -
  have "length (filter (\<lambda>i. i = d) [0..<m]) = (if d < m then 1 else 0)" for m
    by (induction m) auto
  then have "length (filter (\<lambda>i. i = d) (map fd_id fs)) = 1"
    using assms by simp
  then show ?thesis by (simp add: filter_map comp_def)
qed

text \<open>
  C9, last write wins: when the configuration \<open>ts\<close> schedules its point number \<open>k\<close> on day
  \<open>d < count\<close> and no configuration listed after \<open>ts\<close> schedules a point on that day, the
  placement with id \<open>d\<close> is the message placement of that point of \<open>ts\<close>, whatever the
  configurations listed before \<open>ts\<close> schedule on day \<open>d\<close>; it is the only placement with
  id \<open>d\<close>. The model is a total function: no call fails.
\<close>

theorem last_write_wins:
  assumes "k < length (assignedPoints e ts)"
    and "ts_startDay ts + int k = int d" "int d < count"
    and "\<forall>tb \<in> set B. \<not> (ts_startDay tb \<le> int d
            \<and> int d < ts_startDay tb + int (length (assignedPoints e tb)))"
  shows "generateGarden e count (A @ ts # B) ! d =
           textFlower e d (slotOf e (buildSpeciesVariants e) ts (k, assignedPoints e ts ! k))
       \<and> fd_id (generateGarden e count (A @ ts # B) ! d) = d
       \<and> fd_textSetId (generateGarden e count (A @ ts # B) ! d) = Some (ts_id ts)
       \<and> fd_x (generateGarden e count (A @ ts # B) ! d) = sp_x (assignedPoints e ts ! k)
       \<and> fd_y (generateGarden e count (A @ ts # B) ! d) = sp_y (assignedPoints e ts ! k)
       \<and> length (filter (\<lambda>f. fd_id f = d) (generateGarden e count (A @ ts # B))) = 1"
proof -
  have m: "textSlotMapOf e (A @ ts # B) (int d) =
      Some (slotOf e (buildSpeciesVariants e) ts (k, assignedPoints e ts ! k))"
    using textSlotMapOf_last_wins[OF assms(1), of B A] assms(2,4) by simp
  have f: "generateGarden e count (A @ ts # B) ! d =
           textFlower e d (slotOf e (buildSpeciesVariants e) ts (k, assignedPoints e ts ! k))"
    using generateGarden_nth[OF assms(3), of e "A @ ts # B"] m by simp
  have ids: "map fd_id (generateGarden e count (A @ ts # B)) = [0..<nat count]"
    by (simp add: generateGarden_def gardenLoop_ids)
  have one: "length (filter (\<lambda>f. fd_id f = d) (generateGarden e count (A @ ts # B))) = 1"
    using single_id[OF ids] assms(3) by simp
  show ?thesis unfolding f using one by (simp add: textFlower_def f)
qed

theorem last_write_wins_witness:
  "ts_startDay (sampleMessage ''first'') + int 0 = int 50
   \<and> 0 < length (assignedPoints sampleEnv (sampleMessage ''first''))
   \<and> ts_startDay (sampleMessage ''second'') + int 0 = int 50
   \<and> 0 < length (assignedPoints sampleEnv (sampleMessage ''second''))
   \<and> fd_textSetId (generateGarden sampleEnv 60 ([sampleMessage ''first''] @ sampleMessage ''second'' # []) ! 50)
       = Some ''second''
   \<and> generateGarden sampleEnv 60 ([sampleMessage ''first''] @ sampleMessage ''second'' # []) ! 50 =
       textFlower sampleEnv 50 (slotOf sampleEnv (buildSpeciesVariants sampleEnv) (sampleMessage ''second'')
         (0, assignedPoints sampleEnv (sampleMessage ''second'') ! 0))"
proof -
  have k: "0 < length (assignedPoints sampleEnv (sampleMessage n))" for n
    by (simp add: sampleMessage_points)
  have d: "ts_startDay (sampleMessage n) + int 0 = int 50" for n
    by (simp add: sampleMessage_def)
  have c: "int 50 < 60" by simp
  have b: "\<forall>tb \<in> set []. \<not> (ts_startDay tb \<le> int 50
            \<and> int 50 < ts_startDay tb + int (length (assignedPoints sampleEnv tb)))"
    by simp
  have i: "ts_id (sampleMessage ''second'') = ''second''" by (simp add: sampleMessage_def)
  show ?thesis
    using last_write_wins[OF k[of "''second''"] d[of "''second''"] c b,
        where A = "[sampleMessage ''first'']"] k d i
    by (simp add: textFlower_def)
qed

section \<open>Message days and ordinary days\<close>

lemma textSlotMapOf_single:
  "textSlotMapOf e [ts] d =
     (if ts_startDay ts \<le> d \<and> d < ts_startDay ts + int (length (assignedPoints e ts))
      then Some (slotOf e (buildSpeciesVariants e) ts
                  (nat (d - ts_startDay ts), assignedPoints e ts ! nat (d - ts_startDay ts)))
      else None)"
  by (simp add: textSlotMapOf_lookup allSlots_def filter_slotsOf)




section \<open>The species of the message placements\<close>

lemma perLetterPoolOf_subset: "active \<noteq> [] \<Longrightarrow> set (perLetterPoolOf active s) \<subseteq> set active"
  by (auto simp: perLetterPoolOf_def)

lemma activePoolOf_subset: "set (activePoolOf fb metas ls L) \<subseteq> set fb"
  by (auto simp: activePoolOf_def Let_def)

lemma assignSpeciesToPoints_in_pool:
  assumes "i < length points"
  shows "\<exists>s. sp_species (assignSpeciesToPoints points maskResult enabledSpecies lineSpecies ! i) = Some s
       \<and> s \<in> set (fallbackPoolOf enabledSpecies)"
proof -
  define fb where "fb = fallbackPoolOf enabledSpecies"
  define active where "active = activePoolOf fb (tm_letterMeta maskResult) lineSpecies (sp_letterIndex (points ! i))"
  define plp where "plp = perLetterPoolOf active
      (startOf fb (tm_letterMeta maskResult) lineSpecies 0 Map.empty points (sp_letterIndex (points ! i)))"
  have ane: "active \<noteq> []"
    unfolding active_def fb_def by (rule activePoolOf_nonempty[OF fallbackPoolOf_nonempty])
  have pne: "plp \<noteq> []" unfolding plp_def by (rule perLetterPoolOf_nonempty[OF ane])
  have sub: "set plp \<subseteq> set fb"
    using perLetterPoolOf_subset[OF ane] activePoolOf_subset[of fb] unfolding plp_def active_def
    by blast
  have sp: "sp_species (assignSpeciesToPoints points maskResult enabledSpecies lineSpecies ! i) =
      Some (plp ! (occurrence points i mod length plp))"
    using assignSpeciesToPoints_species[OF assms, of maskResult enabledSpecies lineSpecies]
    unfolding plp_def active_def fb_def by (simp add: Let_def)
  have "plp ! (occurrence points i mod length plp) \<in> set plp"
    using pne by simp
  then show ?thesis using sp sub unfolding fb_def by blast
qed

lemma sunflower_in_fallback:
  assumes "''sunflower'' \<in> set (fallbackPoolOf enabledSpecies)"
  shows "enabledSpecies \<noteq> [] \<and> set enabledSpecies = {''sunflower''}"
proof -
  have d: "filter (\<lambda>species. species \<noteq> ''sunflower'') DEFAULT_SPECIES \<noteq> []"
    by (simp add: DEFAULT_SPECIES_def)
  have ne: "enabledSpecies \<noteq> []"
    using assms d by (auto simp: fallbackPoolOf_def basePoolOf_def Let_def split: if_splits)
  have "filter (\<lambda>species. species \<noteq> ''sunflower'') enabledSpecies = []"
    using assms ne by (auto simp: fallbackPoolOf_def basePoolOf_def Let_def split: if_splits)
  then have "set enabledSpecies \<subseteq> {''sunflower''}"
    by (auto simp: filter_empty_conv)
  then show ?thesis using ne by (cases enabledSpecies) auto
qed

lemma set_uniqueInOrder: "set (uniqueInOrder xs) = set xs"
proof -
  have "set (fold (\<lambda>x acc. if x \<in> set acc then acc else acc @ [x]) xs acc) = set acc \<union> set xs" for acc
    by (induction xs arbitrary: acc) auto
  then show ?thesis by (simp add: uniqueInOrder_def)
qed

lemma speciesOfSvg_rose: "prefix ''rose-'' v \<Longrightarrow> speciesOfSvg v = ''rose''"
  by (auto simp: prefix_def speciesOfSvg_def)

lemma variants_step:
  fixes m :: "string \<rightharpoonup> string list"
  assumes "\<And>sp vs v. m sp = Some vs \<Longrightarrow> v \<in> set vs \<Longrightarrow> speciesOfSvg v = sp"
    and "(let species = speciesOfSvg svg;
              m1 = (case m species of None \<Rightarrow> m(species \<mapsto> []) | Some _ \<Rightarrow> m)
          in m1(species \<mapsto> (case m1 species of Some vs \<Rightarrow> vs | None \<Rightarrow> []) @ [svg])) sp = Some vs"
    and "v \<in> set vs"
  shows "speciesOfSvg v = sp"
proof (cases "sp = speciesOfSvg svg")
  case False
  then have "m sp = Some vs"
    using assms(2) by (cases "m (speciesOfSvg svg)") (simp_all add: Let_def)
  then show ?thesis using assms(1,3) by blast
next
  case True
  show ?thesis
  proof (cases "m (speciesOfSvg svg)")
    case None
    then have "vs = [svg]" using assms(2) True by (simp add: Let_def)
    then show ?thesis using assms(3) True by simp
  next
    case (Some ws)
    then have "vs = ws @ [svg]" using assms(2) True by (simp add: Let_def)
    then show ?thesis using assms(1)[OF Some] assms(3) True by auto
  qed
qed

lemma variants_fold:
  fixes m :: "string \<rightharpoonup> string list"
  assumes "\<And>sp vs v. m sp = Some vs \<Longrightarrow> v \<in> set vs \<Longrightarrow> speciesOfSvg v = sp"
    and "fold (\<lambda>svg m.
             let species = speciesOfSvg svg;
                 m1 = (case m species of None \<Rightarrow> m(species \<mapsto> []) | Some _ \<Rightarrow> m)
             in m1(species \<mapsto> (case m1 species of Some vs \<Rightarrow> vs | None \<Rightarrow> []) @ [svg]))
          xs m sp = Some vs"
    and "v \<in> set vs"
  shows "speciesOfSvg v = sp"
  using assms
proof (induction xs arbitrary: m)
  case Nil
  then show ?case by simp
next
  case (Cons x xs)
  show ?case
  proof (rule Cons.IH[OF _ _ Cons.prems(3)])
    show "fold (\<lambda>svg m.
             let species = speciesOfSvg svg;
                 m1 = (case m species of None \<Rightarrow> m(species \<mapsto> []) | Some _ \<Rightarrow> m)
             in m1(species \<mapsto> (case m1 species of Some vs \<Rightarrow> vs | None \<Rightarrow> []) @ [svg]))
          xs (let species = speciesOfSvg x;
                 m1 = (case m species of None \<Rightarrow> m(species \<mapsto> []) | Some _ \<Rightarrow> m)
             in m1(species \<mapsto> (case m1 species of Some vs \<Rightarrow> vs | None \<Rightarrow> []) @ [x])) sp = Some vs"
      using Cons.prems(2) by (simp only: fold_simps)
  next
    fix sp' vs' v'
    assume "(let species = speciesOfSvg x;
                 m1 = (case m species of None \<Rightarrow> m(species \<mapsto> []) | Some _ \<Rightarrow> m)
             in m1(species \<mapsto> (case m1 species of Some vs \<Rightarrow> vs | None \<Rightarrow> []) @ [x])) sp' = Some vs'"
      and "v' \<in> set vs'"
    then show "speciesOfSvg v' = sp'"
      using variants_step[of m x sp' vs' v'] Cons.prems(1) by blast
  qed
qed

lemma buildSpeciesVariants_species:
  assumes "buildSpeciesVariants e sp = Some vs" "v \<in> set vs"
  shows "speciesOfSvg v = sp"
  using variants_fold[of Map.empty "FLOWER_SVGS e" sp vs v] assms
  unfolding buildSpeciesVariants_def by simp

lemma slotOf_svg_species:
  assumes "sp_species p = Some s" "slot_svg (slotOf e (buildSpeciesVariants e) ts (k, p)) = Some v"
    and "speciesOfSvg v = ''sunflower''"
  shows "s = ''sunflower''"
proof -
  define variants where "variants = (case buildSpeciesVariants e s of
                       Some vs \<Rightarrow> vs
                     | None \<Rightarrow> filter (\<lambda>s. prefix ''rose-'' s) (FLOWER_SVGS e))"
  have "slot_svg (slotOf e (buildSpeciesVariants e) ts (k, p)) =
      (case nthOpt variants (k mod length variants) of Some v \<Rightarrow> Some v | None \<Rightarrow> nthOpt variants 0)"
    by (simp add: slotOf_def Let_def variants_def assms(1) cong: option.case_cong)
  then have "v \<in> set variants"
    using assms(2) by (auto simp: nthOpt_def split: option.splits if_splits)
  then show ?thesis
    using assms(3) buildSpeciesVariants_species[of e s _ v] speciesOfSvg_rose[of v]
    by (auto simp: variants_def split: option.splits)
qed

lemma textSlotMapOf_in_slots:
  assumes "textSlotMapOf e textSets d = Some slot"
  shows "\<exists>ts \<in> set textSets. \<exists>k < length (assignedPoints e ts).
      slot = slotOf e (buildSpeciesVariants e) ts (k, assignedPoints e ts ! k)"
proof -
  let ?ys = "filter (\<lambda>s. slot_dayIndex s = d) (allSlots e textSets)"
  have ne: "?ys \<noteq> []" and sl: "slot = last ?ys"
    using assms by (auto simp: textSlotMapOf_lookup split: if_splits)
  have "slot \<in> set ?ys" unfolding sl by (rule last_in_set[OF ne])
  then have "slot \<in> set (allSlots e textSets)" by simp
  then obtain ts where ts: "ts \<in> set textSets" and "slot \<in> set (slotsOf e (buildSpeciesVariants e) ts)"
    by (auto simp: allSlots_def)
  then obtain kp where kp: "kp \<in> set (enumerate 0 (assignedPoints e ts))"
    and s: "slot = slotOf e (buildSpeciesVariants e) ts kp"
    by (auto simp: slotsOf_def)
  have "fst kp < length (assignedPoints e ts)" "snd kp = assignedPoints e ts ! fst kp"
    using kp by (auto simp: in_set_enumerate_eq)
  then show ?thesis using ts s by (metis prod.collapse)
qed

lemma message_placement:
  assumes "f \<in> set (generateGarden e count textSets)" "fd_textSetId f = Some tid"
  shows "\<exists>ts \<in> set textSets. \<exists>k < length (assignedPoints e ts).
      f = textFlower e (fd_id f) (slotOf e (buildSpeciesVariants e) ts (k, assignedPoints e ts ! k))
      \<and> ts_id ts = tid"
proof -
  have len: "length (generateGarden e count textSets) = nat count"
    by (simp add: generateGarden_def gardenLoop_length)
  obtain i where i: "i < nat count" and f: "f = generateGarden e count textSets ! i"
    using assms(1) len by (metis in_set_conv_nth)
  have ci: "int i < count" using i by simp
  note nth = generateGarden_nth[OF ci, of e textSets]
  show ?thesis
  proof (cases "textSlotMapOf e textSets (int i)")
    case None
    then have "fd_textSetId f = None"
      using nth f by (simp add: gridFlower_def randomFlower_def Let_def)
    then show ?thesis using assms(2) by simp
  next
    case (Some slot)
    then have ft: "f = textFlower e i slot" using nth f by simp
    obtain ts k where ts: "ts \<in> set textSets" and k: "k < length (assignedPoints e ts)"
      and s: "slot = slotOf e (buildSpeciesVariants e) ts (k, assignedPoints e ts ! k)"
      using textSlotMapOf_in_slots[OF Some] by blast
    have "fd_id f = i" "ts_id ts = tid"
      using ft s assms(2) by (simp_all add: textFlower_def)
    then show ?thesis using ts k ft s by blast
  qed
qed


text \<open>
  C6, sunflower exclusion: every point returned by \<^verbatim>\<open>assignSpeciesToPoints\<close> has a species,
  and the species is \<^verbatim>\<open>sunflower\<close> only when the enabled pool is not empty and holds nothing
  but \<^verbatim>\<open>sunflower\<close>. Every message placement of \<^verbatim>\<open>generateGarden\<close> is the placement of an
  assigned point of a configuration with the id of the placement; its species is
  \<^verbatim>\<open>sunflower\<close> only when the palettes of that configuration name no other species, and
  the species prefix of its variant is \<^verbatim>\<open>sunflower\<close> only when its species is.
\<close>

theorem sunflower_exclusion:
  "(\<forall>p \<in> set (assignSpeciesToPoints points maskResult enabledSpecies lineSpecies).
      \<exists>s. sp_species p = Some s
        \<and> (s = ''sunflower'' \<longrightarrow> enabledSpecies \<noteq> [] \<and> set enabledSpecies = {''sunflower''}))
   \<and> (\<forall>f \<in> set (generateGarden e count textSets). \<forall>tid. fd_textSetId f = Some tid \<longrightarrow>
        (\<exists>ts \<in> set textSets. \<exists>p \<in> set (assignedPoints e ts). \<exists>s.
            ts_id ts = tid \<and> fd_x f = sp_x p \<and> fd_y f = sp_y p \<and> sp_species p = Some s
          \<and> (s = ''sunflower'' \<longrightarrow> set (concat (ts_lineSpecies ts)) = {''sunflower''})
          \<and> (\<forall>v. fd_svg f = Some v \<and> speciesOfSvg v = ''sunflower'' \<longrightarrow> s = ''sunflower'')))"
proof (intro conjI ballI allI impI)
  fix p assume "p \<in> set (assignSpeciesToPoints points maskResult enabledSpecies lineSpecies)"
  then obtain i where i: "i < length points"
    and p: "p = assignSpeciesToPoints points maskResult enabledSpecies lineSpecies ! i"
    by (metis in_set_conv_nth assignSpeciesToPoints_length)
  obtain s where "sp_species p = Some s" "s \<in> set (fallbackPoolOf enabledSpecies)"
    using assignSpeciesToPoints_in_pool[OF i, of maskResult enabledSpecies lineSpecies] p by blast
  then show "\<exists>s. sp_species p = Some s
        \<and> (s = ''sunflower'' \<longrightarrow> enabledSpecies \<noteq> [] \<and> set enabledSpecies = {''sunflower''})"
    using sunflower_in_fallback[of enabledSpecies] by blast
next
  fix f tid
  assume f: "f \<in> set (generateGarden e count textSets)" and tid: "fd_textSetId f = Some tid"
  obtain ts k where ts: "ts \<in> set textSets" and k: "k < length (assignedPoints e ts)"
    and ft: "f = textFlower e (fd_id f) (slotOf e (buildSpeciesVariants e) ts (k, assignedPoints e ts ! k))"
    and id: "ts_id ts = tid"
    using message_placement[OF f tid] by blast
  define p where "p = assignedPoints e ts ! k"
  define gen where "gen = generateFlowerPositionsFromMask e (maskOf ts) (boundsOf ts) (ts_density ts)"
  have ap: "assignedPoints e ts =
      assignSpeciesToPoints gen (maskOf ts) (uniqueInOrder (concat (ts_lineSpecies ts))) (ts_lineSpecies ts)"
    by (simp add: assignedPoints_def gen_def Let_def)
  have kg: "k < length gen" using k by (simp add: ap assignSpeciesToPoints_length)
  obtain s where s: "sp_species p = Some s"
    and pool: "s \<in> set (fallbackPoolOf (uniqueInOrder (concat (ts_lineSpecies ts))))"
    using assignSpeciesToPoints_in_pool[OF kg, of "maskOf ts"
        "uniqueInOrder (concat (ts_lineSpecies ts))" "ts_lineSpecies ts"]
    unfolding p_def ap by blast
  have sun: "s = ''sunflower'' \<longrightarrow> set (concat (ts_lineSpecies ts)) = {''sunflower''}"
    using pool sunflower_in_fallback[of "uniqueInOrder (concat (ts_lineSpecies ts))"]
    by (auto simp: set_uniqueInOrder)
  have pin: "p \<in> set (assignedPoints e ts)" using k by (simp add: p_def)
  have xy: "fd_x f = sp_x p" "fd_y f = sp_y p"
    by (subst ft, simp add: textFlower_def p_def)+
  have svg: "fd_svg f = slot_svg (slotOf e (buildSpeciesVariants e) ts (k, p))"
    by (subst ft, simp add: textFlower_def p_def)
  have var: "\<forall>v. fd_svg f = Some v \<and> speciesOfSvg v = ''sunflower'' \<longrightarrow> s = ''sunflower''"
    using slotOf_svg_species[OF s, of e ts k] svg by metis
  show "\<exists>ts \<in> set textSets. \<exists>p \<in> set (assignedPoints e ts). \<exists>s.
            ts_id ts = tid \<and> fd_x f = sp_x p \<and> fd_y f = sp_y p \<and> sp_species p = Some s
          \<and> (s = ''sunflower'' \<longrightarrow> set (concat (ts_lineSpecies ts)) = {''sunflower''})
          \<and> (\<forall>v. fd_svg f = Some v \<and> speciesOfSvg v = ''sunflower'' \<longrightarrow> s = ''sunflower'')"
  proof (intro bexI[where x = ts] bexI[where x = p] exI[where x = s] conjI)
    show "ts_id ts = tid" by (rule id)
    show "fd_x f = sp_x p" by (rule xy(1))
    show "fd_y f = sp_y p" by (rule xy(2))
    show "sp_species p = Some s" by (rule s)
    show "s = ''sunflower'' \<longrightarrow> set (concat (ts_lineSpecies ts)) = {''sunflower''}" by (rule sun)
    show "\<forall>v. fd_svg f = Some v \<and> speciesOfSvg v = ''sunflower'' \<longrightarrow> s = ''sunflower''" by (rule var)
    show "p \<in> set (assignedPoints e ts)" by (rule pin)
    show "ts \<in> set textSets" by (rule ts)
  qed
qed

theorem sunflower_exclusion_witness:
  "(\<exists>s. sp_species (hd (assignSpeciesToPoints [pointAt 0] oneCellMask [''sunflower'', ''rose'']
                       [[''sunflower'', ''rose'']])) = Some s
      \<and> s \<noteq> ''sunflower'')
   \<and> fd_textSetId (generateGarden sampleEnv 60 [sampleMessage ''m''] ! 50) = Some ''m''
   \<and> (\<exists>p \<in> set (assignedPoints sampleEnv (sampleMessage ''m'')). \<exists>s.
          fd_x (generateGarden sampleEnv 60 [sampleMessage ''m''] ! 50) = sp_x p
        \<and> sp_species p = Some s \<and> s \<noteq> ''sunflower'')"
proof -
  let ?out = "assignSpeciesToPoints [pointAt 0] oneCellMask [''sunflower'', ''rose'']
                [[''sunflower'', ''rose'']]"
  let ?ts = "sampleMessage ''m''"
  let ?g = "generateGarden sampleEnv 60 [?ts]"
  note inst = sunflower_exclusion[of "[pointAt 0]" oneCellMask "[''sunflower'', ''rose'']"
        "[[''sunflower'', ''rose'']]" sampleEnv 60 "[?ts]"]
  have "length ?out = 1" by (simp add: assignSpeciesToPoints_length)
  then have m: "hd ?out \<in> set ?out" by (cases ?out) simp_all
  have "''rose'' \<in> set [''sunflower'', ''rose'']" "''rose'' \<noteq> ''sunflower''" by simp_all
  then have e: "set [''sunflower'', ''rose''] \<noteq> {''sunflower''}"
    by (metis singletonD)
  have "\<forall>p \<in> set ?out. \<exists>s. sp_species p = Some s
        \<and> (s = ''sunflower'' \<longrightarrow> [''sunflower'', ''rose''] \<noteq> []
              \<and> set [''sunflower'', ''rose''] = {''sunflower''})"
    by (rule conjunct1[OF inst])
  then obtain s where s: "sp_species (hd ?out) = Some s"
    and imp: "s = ''sunflower'' \<longrightarrow> [''sunflower'', ''rose''] \<noteq> []
              \<and> set [''sunflower'', ''rose''] = {''sunflower''}"
    using m by blast
  have "s \<noteq> ''sunflower''" using imp e by blast
  then have first: "\<exists>s. sp_species (hd ?out) = Some s \<and> s \<noteq> ''sunflower''"
    using s by blast
  have len: "length ?g = 60" by (simp add: generateGarden_def gardenLoop_length)
  have m50: "?g ! 50 \<in> set ?g" by (rule nth_mem) (simp add: len)
  have sd: "ts_startDay ?ts = 50" and idm: "ts_id ?ts = ''m''"
    by (simp_all add: sampleMessage_def)
  have slot50: "textSlotMapOf sampleEnv [?ts] (int 50) =
      Some (slotOf sampleEnv (buildSpeciesVariants sampleEnv) ?ts (0, assignedPoints sampleEnv ?ts ! 0))"
    by (simp add: textSlotMapOf_single sd sampleMessage_points)
  have t50: "fd_textSetId (?g ! 50) = Some ''m''"
    using generateGarden_nth[of 50 60 sampleEnv "[?ts]"] slot50
    by (simp add: textFlower_def idm)
  have "''rose'' \<in> set (concat (ts_lineSpecies ?ts))" by (simp add: sampleMessage_def)
  then have pal: "set (concat (ts_lineSpecies ?ts)) \<noteq> {''sunflower''}"
    using \<open>''rose'' \<noteq> ''sunflower''\<close> by (metis singletonD)
  have "\<forall>f \<in> set ?g. \<forall>tid. fd_textSetId f = Some tid \<longrightarrow>
        (\<exists>ts \<in> set [?ts]. \<exists>p \<in> set (assignedPoints sampleEnv ts). \<exists>s.
            ts_id ts = tid \<and> fd_x f = sp_x p \<and> fd_y f = sp_y p \<and> sp_species p = Some s
          \<and> (s = ''sunflower'' \<longrightarrow> set (concat (ts_lineSpecies ts)) = {''sunflower''})
          \<and> (\<forall>v. fd_svg f = Some v \<and> speciesOfSvg v = ''sunflower'' \<longrightarrow> s = ''sunflower''))"
    by (rule conjunct2[OF inst])
  note msg = bspec[OF this m50, THEN spec, THEN mp, OF t50]
  from msg obtain ts where ts: "ts \<in> set [?ts]"
    and inner: "\<exists>p \<in> set (assignedPoints sampleEnv ts). \<exists>s.
            ts_id ts = ''m'' \<and> fd_x (?g ! 50) = sp_x p \<and> fd_y (?g ! 50) = sp_y p \<and> sp_species p = Some s
          \<and> (s = ''sunflower'' \<longrightarrow> set (concat (ts_lineSpecies ts)) = {''sunflower''})
          \<and> (\<forall>v. fd_svg (?g ! 50) = Some v \<and> speciesOfSvg v = ''sunflower'' \<longrightarrow> s = ''sunflower'')"
    by (rule bexE)
  from inner obtain p where p: "p \<in> set (assignedPoints sampleEnv ts)"
    and inner2: "\<exists>s.
            ts_id ts = ''m'' \<and> fd_x (?g ! 50) = sp_x p \<and> fd_y (?g ! 50) = sp_y p \<and> sp_species p = Some s
          \<and> (s = ''sunflower'' \<longrightarrow> set (concat (ts_lineSpecies ts)) = {''sunflower''})
          \<and> (\<forall>v. fd_svg (?g ! 50) = Some v \<and> speciesOfSvg v = ''sunflower'' \<longrightarrow> s = ''sunflower'')"
    by (rule bexE)
  from inner2 obtain s2 where all: "ts_id ts = ''m'' \<and> fd_x (?g ! 50) = sp_x p \<and> fd_y (?g ! 50) = sp_y p
          \<and> sp_species p = Some s2
          \<and> (s2 = ''sunflower'' \<longrightarrow> set (concat (ts_lineSpecies ts)) = {''sunflower''})
          \<and> (\<forall>v. fd_svg (?g ! 50) = Some v \<and> speciesOfSvg v = ''sunflower'' \<longrightarrow> s2 = ''sunflower'')"
    by (rule exE)
  have x: "fd_x (?g ! 50) = sp_x p" and sp: "sp_species p = Some s2"
    and sun: "s2 = ''sunflower'' \<longrightarrow> set (concat (ts_lineSpecies ts)) = {''sunflower''}"
    using all by simp_all
  have eq: "ts = ?ts" using ts by simp
  have ns: "s2 \<noteq> ''sunflower''"
  proof
    assume "s2 = ''sunflower''"
    then have "set (concat (ts_lineSpecies ?ts)) = {''sunflower''}"
      using sun unfolding eq by (rule rev_mp)
    with pal show False by (rule notE)
  qed
  have second: "\<exists>p \<in> set (assignedPoints sampleEnv ?ts). \<exists>s.
          fd_x (?g ! 50) = sp_x p \<and> sp_species p = Some s \<and> s \<noteq> ''sunflower''"
    by (rule bexI[OF _ p[unfolded eq]], rule exI[where x = s2]) (intro conjI x sp ns)
  show ?thesis by (intro conjI first t50 second)
qed

section \<open>Where the placements lie\<close>

lemma jitter_abs:
  fixes r j :: real
  assumes "0 \<le> r" "r < 1"
  shows "\<bar>(r - 0.5) * j\<bar> \<le> \<bar>j\<bar> / 2"
proof -
  have "\<bar>r - 0.5\<bar> \<le> 1 / 2" using assms by linarith
  then have "\<bar>r - 0.5\<bar> * \<bar>j\<bar> \<le> 1 / 2 * \<bar>j\<bar>" by (rule mult_right_mono) simp
  then show ?thesis by (simp add: abs_mult)
qed

lemma box_bound:
  fixes ox w j r :: real and col cols :: nat
  assumes "0 \<le> r" "r < 1" "col < cols"
  shows "min ox (ox + w) - \<bar>j\<bar> / 2 * \<bar>w / real cols\<bar>
           \<le> ox + (real col + 0.5 + (r - 0.5) * j) * (w / real cols)
       \<and> ox + (real col + 0.5 + (r - 0.5) * j) * (w / real cols)
           \<le> max ox (ox + w) + \<bar>j\<bar> / 2 * \<bar>w / real cols\<bar>"
proof -
  define cw where "cw = w / real cols"
  define t where "t = real col + 0.5 + (r - 0.5) * j"
  define h where "h = \<bar>j\<bar> / 2"
  have cpos: "0 < real cols" using assms(3) by simp
  have w: "w = real cols * cw" using cpos by (simp add: cw_def)
  have jb: "\<bar>(r - 0.5) * j\<bar> \<le> h" unfolding h_def by (rule jitter_abs[OF assms(1,2)])
  have c1: "real col + 1 \<le> real cols" using assms(3) by linarith
  have tl: "- h \<le> t" and tu: "t \<le> real cols + h"
    using jb c1 unfolding t_def by (simp_all add: abs_le_iff)
  have h0: "0 \<le> h" unfolding h_def by simp
  show ?thesis
  proof (cases "0 \<le> cw")
    case True
    have a: "- h * cw \<le> t * cw" using tl True by (rule mult_right_mono)
    have b: "t * cw \<le> (real cols + h) * cw" using tu True by (rule mult_right_mono)
    have "0 \<le> w" using True cpos w by simp
    then show ?thesis
      using a b True unfolding cw_def[symmetric] t_def[symmetric] h_def[symmetric] w
      by (simp add: algebra_simps min_def max_def)
  next
    case False
    then have neg: "cw \<le> 0" by simp
    have a: "t * cw \<le> - h * cw" using tl neg by (rule mult_right_mono_neg)
    have b: "(real cols + h) * cw \<le> t * cw" using tu neg by (rule mult_right_mono_neg)
    have "w \<le> 0" using neg cpos w by (simp add: mult_nonneg_nonpos)
    then show ?thesis
      using a b neg unfolding cw_def[symmetric] t_def[symmetric] h_def[symmetric] w
      by (simp add: algebra_simps min_def max_def)
  qed
qed


lemma fold_invariant:
  assumes "\<And>x s. x \<in> set xs \<Longrightarrow> P s \<Longrightarrow> P (f x s)" "P s"
  shows "P (fold f xs s)"
  using assms by (induction xs arbitrary: s) auto

lemma copyLoop_spawnOK:
  assumes "\<And>n. 0 \<le> sc_draw cx n \<and> sc_draw cx n < 1"
    and "row < length grid" "col < length (grid ! row)"
    and "\<forall>p \<in> set points. spawnOK cx grid p"
  shows "\<forall>p \<in> set (fst (copyLoop cx row col k (points, n))). spawnOK cx grid p"
  using assms(4)
proof (induction k arbitrary: points n)
  case 0
  then show ?case by simp
next
  case (Suc k)
  show ?case
  proof (cases "letterAt (sc_letterMap cx) row col = -1")
    case True
    then show ?thesis using Suc.prems by (simp add: Let_def)
  next
    case False
    define q where "q = \<lparr>sp_x = sc_offsetX cx + (real col + 0.5 + (sc_draw cx n - 0.5) * sc_jitter cx) * sc_cellW cx,
                    sp_y = sc_offsetY cx + (real row + 0.5 + (sc_draw cx (n + 1) - 0.5) * sc_jitter cx) * sc_cellH cx,
                    sp_row = row,
                    sp_col = col,
                    sp_pixelIndex = length points,
                    sp_letterIndex = letterAt (sc_letterMap cx) row col,
                    sp_lineIndex = (case metaAt (sc_letterMeta cx) (letterAt (sc_letterMap cx) row col) of
                                      Some m \<Rightarrow> lm_lineIndex m | None \<Rightarrow> 0),
                    sp_letterChar = (case metaAt (sc_letterMeta cx) (letterAt (sc_letterMap cx) row col) of
                                       Some m \<Rightarrow> [lm_char m] | None \<Rightarrow> []),
                    sp_species = None\<rparr>"
    have ok: "spawnOK cx grid q"
      unfolding spawnOK_def q_def using assms(1)[of n] assms(1)[of "n + 1"] assms(2,3)
      by (intro conjI exI[where x = "sc_draw cx n"] exI[where x = "sc_draw cx (n + 1)"]) simp_all
    have unf: "copyLoop cx row col (Suc k) (points, n) = copyLoop cx row col k (points @ [q], n + 2)"
      using False by (simp add: Let_def q_def)
    have "\<forall>p \<in> set (points @ [q]). spawnOK cx grid p" using Suc.prems ok by simp
    then show ?thesis unfolding unf by (rule Suc.IH)
  qed
qed

lemma cellStep_spawnOK:
  assumes "\<And>n. 0 \<le> sc_draw cx n \<and> sc_draw cx n < 1"
    and "row < length grid" "col < length (grid ! row)"
    and "\<forall>p \<in> set (fst st). spawnOK cx grid p"
  shows "\<forall>p \<in> set (fst (cellStep cx density row (col, isOn) st)). spawnOK cx grid p"
proof -
  obtain points n where st: "st = (points, n)" by (cases st)
  have pts: "\<forall>p \<in> set points. spawnOK cx grid p" using assms(4) st by simp
  show ?thesis
    unfolding st cellStep_def
    using copyLoop_spawnOK[OF assms(1,2,3) pts] pts
    by (simp add: Let_def)
qed

lemma rowStep_spawnOK:
  assumes "\<And>n. 0 \<le> sc_draw cx n \<and> sc_draw cx n < 1"
    and "row < length grid"
    and "\<forall>p \<in> set (fst st). spawnOK cx grid p"
  shows "\<forall>p \<in> set (fst (rowStep cx density (row, grid ! row) st)). spawnOK cx grid p"
proof -
  have "\<forall>p \<in> set (fst (fold (cellStep cx density row) (enumerate 0 (grid ! row)) st)). spawnOK cx grid p"
  proof (rule fold_invariant[where P = "\<lambda>s. \<forall>p \<in> set (fst s). spawnOK cx grid p"])
    fix x and s :: "SpawnPoint list \<times> nat"
    assume x: "x \<in> set (enumerate 0 (grid ! row))" and s: "\<forall>p \<in> set (fst s). spawnOK cx grid p"
    have c: "fst x < length (grid ! row)" using x by (simp add: in_set_enumerate_eq)
    show "\<forall>p \<in> set (fst (cellStep cx density row x s)). spawnOK cx grid p"
      using cellStep_spawnOK[OF assms(1,2) c s, of density "snd x"] by simp
  qed (rule assms(3))
  then show ?thesis by (simp add: rowStep_def)
qed

lemma generate_spawnOK:
  assumes "p \<in> set (generateFlowerPositionsFromMask e maskResult bounds density)"
  shows "spawnOK (spawnCtx e maskResult bounds) (tm_mask maskResult) p"
proof -
  let ?cx = "spawnCtx e maskResult bounds"
  let ?grid = "tm_mask maskResult"
  have draws: "0 \<le> sc_draw ?cx n \<and> sc_draw ?cx n < 1" for n
    by (simp add: spawnCtx_def Let_def rng_range)
  have "\<forall>p \<in> set (fst (fold (rowStep ?cx density) (enumerate 0 ?grid) ([], 0))). spawnOK ?cx ?grid p"
  proof (rule fold_invariant[where P = "\<lambda>s. \<forall>p \<in> set (fst s). spawnOK ?cx ?grid p"])
    fix x and s :: "SpawnPoint list \<times> nat"
    assume x: "x \<in> set (enumerate 0 ?grid)" and s: "\<forall>p \<in> set (fst s). spawnOK ?cx ?grid p"
    have r: "fst x < length ?grid" and v: "snd x = ?grid ! fst x"
      using x by (simp_all add: in_set_enumerate_eq)
    have "x = (fst x, ?grid ! fst x)" using v by (metis prod.collapse)
    then show "\<forall>p \<in> set (fst (rowStep ?cx density x s)). spawnOK ?cx ?grid p"
      using rowStep_spawnOK[OF draws r s, of density] by simp
  qed simp
  then show ?thesis
    using assms by (simp add: generateFlowerPositionsFromMask_def scanMask_def Let_def split: if_splits)
qed


lemma setCell_lengths:
  assumes "\<forall>r \<in> set g. length r = C"
  shows "\<forall>r \<in> set (setCell g row col v). length r = C"
proof (cases "row < length g")
  case True
  then have "length ((g ! row)[col := v]) = C" using assms by simp
  then show ?thesis
    using assms set_update_subset_insert[of g row "(g ! row)[col := v]"]
    unfolding setCell_def by auto
next
  case False
  then show ?thesis using assms by (simp add: setCell_def list_update_beyond)
qed

lemma stampPixel_lengths:
  assumes "\<forall>r \<in> set (ms_mask st). length r = C"
  shows "\<forall>r \<in> set (ms_mask (stampPixel rows cols ci row col st)). length r = C"
  using assms setCell_lengths[OF assms, of row col True] by (simp add: stampPixel_def)

lemma stampScaled_lengths:
  assumes "\<forall>r \<in> set (ms_mask st). length r = C"
  shows "\<forall>r \<in> set (ms_mask (stampScaled rows cols psx psy ci startRow colCursor r0 c0 st)). length r = C"
  unfolding stampScaled_def
  by (intro fold_invariant[where P = "\<lambda>s. \<forall>r \<in> set (ms_mask s). length r = C"]
      stampPixel_lengths assms)

lemma stampRow_lengths:
  fixes st :: MaskState
  assumes "\<forall>r \<in> set (ms_mask st). length r = C"
  shows "\<forall>r \<in> set (ms_mask (fold (\<lambda>c st2.
                     if c < length grow \<and> grow ! c = CHR ''1''
                     then stampScaled rows cols psx psy ci startRow colCursor x c st2
                     else st2) cs st)). length r = C"
  using assms
proof (induction cs arbitrary: st)
  case Nil
  then show ?case by simp
next
  case (Cons c cs)
  have "\<forall>r \<in> set (ms_mask (if c < length grow \<and> grow ! c = CHR ''1''
                     then stampScaled rows cols psx psy ci startRow colCursor x c st
                     else st)). length r = C"
    using Cons.prems stampScaled_lengths[OF Cons.prems] by simp
  from Cons.IH[OF this] show ?case by simp
qed

lemma stampRows_lengths:
  fixes st :: MaskState
  assumes "\<forall>r \<in> set (ms_mask st). length r = C"
  shows "\<forall>r \<in> set (ms_mask (fold (\<lambda>r st1.
             if r < length glyph \<and> glyph ! r \<noteq> []
             then fold (\<lambda>c st2.
                     if c < length (glyph ! r) \<and> glyph ! r ! c = CHR ''1''
                     then stampScaled rows cols psx psy ci startRow colCursor r c st2
                     else st2)
                   [0..<baseCharWidth] st1
             else st1) rs st)). length r = C"
  using assms
proof (induction rs arbitrary: st)
  case Nil
  then show ?case by simp
next
  case (Cons x rs)
  have "\<forall>r \<in> set (ms_mask (if x < length glyph \<and> glyph ! x \<noteq> []
             then fold (\<lambda>c st2.
                     if c < length (glyph ! x) \<and> glyph ! x ! c = CHR ''1''
                     then stampScaled rows cols psx psy ci startRow colCursor x c st2
                     else st2)
                   [0..<baseCharWidth] st
             else st)). length r = C"
    using Cons.prems stampRow_lengths[OF Cons.prems] by simp
  from Cons.IH[OF this] show ?case by simp
qed

lemma stampGlyph_lengths:
  assumes "\<forall>r \<in> set (ms_mask st). length r = C"
  shows "\<forall>r \<in> set (ms_mask (stampGlyph rows cols psx psy glyph ci startRow colCursor st)). length r = C"
  unfolding stampGlyph_def by (rule stampRows_lengths[OF assms])

lemma charStep_lengths:
  assumes "\<forall>r \<in> set (ms_mask (snd s)). length r = C"
  shows "\<forall>r \<in> set (ms_mask (snd (charStep rows cols psx psy chSpacing lineIndex startRow ch s))). length r = C"
proof -
  obtain colCursor charPosition st where s: "s = ((colCursor, charPosition), st)"
    by (cases s) auto
  have st: "\<forall>r \<in> set (ms_mask st). length r = C" using assms s by simp
  show ?thesis
    unfolding s charStep_def
    by (simp add: Let_def) (intro conjI impI stampGlyph_lengths; simp add: st)
qed

lemma lineStep_lengths:
  assumes "\<forall>r \<in> set (ms_mask st). length r = C"
  shows "\<forall>r \<in> set (ms_mask (lineStep rows cols psx psy chSpacing lnSpacing x st)). length r = C"
proof -
  obtain lineIndex line where x: "x = (lineIndex, line)" by (cases x)
  show ?thesis
    unfolding x lineStep_def
    by (simp add: Let_def)
      (rule fold_invariant[where P = "\<lambda>s. \<forall>r \<in> set (ms_mask (snd s)). length r = C"],
        rule charStep_lengths, simp_all add: assms)
qed

lemma fold_lineStep_lengths:
  fixes st :: MaskState
  assumes "\<forall>r \<in> set (ms_mask st). length r = C"
  shows "\<forall>r \<in> set (ms_mask (fold (lineStep rows cols psx psy chSpacing lnSpacing) xs st)). length r = C"
  using assms
proof (induction xs arbitrary: st)
  case Nil
  then show ?case by simp
next
  case (Cons x xs)
  show ?case
    using Cons.IH[OF lineStep_lengths[OF Cons.prems, of rows cols psx psy chSpacing lnSpacing x]]
    by simp
qed

lemma buildTextMask_rectangular:
  "\<exists>C. \<forall>r \<in> set (tm_mask (buildTextMask lines optionsOrSpacing)). length r = C"
proof -
  have rect: "\<exists>C. \<forall>r \<in> set (ms_mask (fold (lineStep rows cols psx psy chSpacing lnSpacing) xs st)). length r = C"
    if "\<exists>C. \<forall>r \<in> set (ms_mask st). length r = C"
    for rows cols psx psy chSpacing lnSpacing xs and st :: MaskState
    using that fold_lineStep_lengths by blast
  have base: "\<exists>C. \<forall>r \<in> set (replicate rows (replicate cols False)). length r = C" for rows cols
    by (rule exI[where x = cols]) simp
  show ?thesis
    unfolding buildTextMask_def Let_def
    apply (simp only: TextMaskResult.select_convs)
    apply (rule rect)
    apply (simp only: MaskState.select_convs)
    apply (rule base)
    done
qed

lemma assignLoop_coords:
  "i < length pts \<Longrightarrow>
   sp_x (assignLoop fb metas ls idx maps pts ! i) = sp_x (pts ! i)
   \<and> sp_y (assignLoop fb metas ls idx maps pts ! i) = sp_y (pts ! i)
   \<and> sp_row (assignLoop fb metas ls idx maps pts ! i) = sp_row (pts ! i)
   \<and> sp_col (assignLoop fb metas ls idx maps pts ! i) = sp_col (pts ! i)"
proof (induction pts arbitrary: idx maps i)
  case Nil
  then show ?case by simp
next
  case (Cons p pts)
  obtain cnt st where maps: "maps = (cnt, st)" by (cases maps)
  obtain p1 maps1 where step: "assignStep fb metas ls idx p (cnt, st) = (p1, maps1)"
    by (cases "assignStep fb metas ls idx p (cnt, st)")
  have p1: "sp_x p1 = sp_x p \<and> sp_y p1 = sp_y p \<and> sp_row p1 = sp_row p \<and> sp_col p1 = sp_col p"
    using step by (auto simp: assignStep_def Let_def)
  show ?case
  proof (cases i)
    case 0
    then show ?thesis using p1 step maps by simp
  next
    case (Suc j)
    then show ?thesis using Cons.IH[of j "idx + 1" maps1] Cons.prems step maps by simp
  qed
qed

lemma assignSpeciesToPoints_coords:
  "i < length points \<Longrightarrow>
   sp_x (assignSpeciesToPoints points m en ls ! i) = sp_x (points ! i)
   \<and> sp_y (assignSpeciesToPoints points m en ls ! i) = sp_y (points ! i)
   \<and> sp_row (assignSpeciesToPoints points m en ls ! i) = sp_row (points ! i)
   \<and> sp_col (assignSpeciesToPoints points m en ls ! i) = sp_col (points ! i)"
  using assignLoop_coords[of i points "fallbackPoolOf en" "tm_letterMeta m" ls 0 "(Map.empty, Map.empty)"]
  by (simp add: assignSpeciesToPoints_def Let_def)


lemma gridFlower_bounds:
  assumes "cellIndex < totalCells"
  shows "0 \<le> fd_x (gridFlower e i cellIndex n) \<and> fd_x (gridFlower e i cellIndex n) \<le> 100
       \<and> 0 \<le> fd_y (gridFlower e i cellIndex n) \<and> fd_y (gridFlower e i cellIndex n) \<le> 100"
proof -
  define r1 where "r1 = rng e SEED n"
  define r2 where "r2 = rng e SEED (n + 1)"
  have r1: "0 \<le> r1" "r1 < 1" and r2: "0 \<le> r2" "r2 < 1"
    using rng_range[of e SEED n] rng_range[of e SEED "n + 1"] by (simp_all add: r1_def r2_def)
  have col: "real (cellIndex mod 64) \<le> 63"
    using mod_less_divisor[of 64 cellIndex] by (simp del: mod_less_divisor)
  have "cellIndex div 64 < 56" using assms by (simp add: totalCells_value)
  then have row: "real (cellIndex div 64) \<le> 55" by simp
  have x: "fd_x (gridFlower e i cellIndex n) = (real (cellIndex mod 64) + r1) * (100 / 64)"
    by (simp add: gridFlower_def Let_def cellW_def COLS_def r1_def algebra_simps)
  have y: "fd_y (gridFlower e i cellIndex n) = (real (cellIndex div 64) + r2) * (100 / 56)"
    by (simp add: gridFlower_def Let_def cellH_def ROWS_def COLS_def r2_def algebra_simps)
  have "0 \<le> real (cellIndex mod 64) + r1" "real (cellIndex mod 64) + r1 \<le> 64"
    using r1 col by simp_all
  moreover have "0 \<le> real (cellIndex div 64) + r2" "real (cellIndex div 64) + r2 \<le> 56"
    using r2 row by simp_all
  ultimately show ?thesis unfolding x y by simp
qed

lemma randomFlower_bounds:
  "0 \<le> fd_x (randomFlower e i n) \<and> fd_x (randomFlower e i n) \<le> 100
   \<and> 0 \<le> fd_y (randomFlower e i n) \<and> fd_y (randomFlower e i n) \<le> 100"
  using rng_range[of e SEED n] rng_range[of e SEED "n + 1"]
  by (simp add: randomFlower_def Let_def)

lemma ordinary_placement_bounds:
  assumes "f \<in> set (generateGarden e count textSets)" "fd_textSetId f = None"
  shows "0 \<le> fd_x f \<and> fd_x f \<le> 100 \<and> 0 \<le> fd_y f \<and> fd_y f \<le> 100"
proof -
  have len: "length (generateGarden e count textSets) = nat count"
    by (simp add: generateGarden_def gardenLoop_length)
  obtain i where i: "i < nat count" and f: "f = generateGarden e count textSets ! i"
    using assms(1) len by (metis in_set_conv_nth)
  have ci: "int i < count" using i by simp
  note nth = generateGarden_nth[OF ci, of e textSets]
  show ?thesis
  proof (cases "textSlotMapOf e textSets (int i)")
    case (Some slot)
    then have "fd_textSetId f \<noteq> None" using nth f by (simp add: textFlower_def)
    then show ?thesis using assms(2) by simp
  next
    case None
    show ?thesis
    proof (cases "ordinaryBefore e textSets i < totalCells")
      case True
      have lenS: "length (fst (shuffled e)) = totalCells"
        and setS: "set (fst (shuffled e)) = {0..<totalCells}"
        using shuffled_perm[of e] by simp_all
      have "fst (shuffled e) ! ordinaryBefore e textSets i \<in> set (fst (shuffled e))"
        by (rule nth_mem) (simp add: lenS True)
      then have c: "fst (shuffled e) ! ordinaryBefore e textSets i < totalCells"
        unfolding setS by simp
      have "f = gridFlower e i (fst (shuffled e) ! ordinaryBefore e textSets i)
                 (snd (shuffled e) + 5 * ordinaryBefore e textSets i)"
        using nth f None True by simp
      then show ?thesis using gridFlower_bounds[OF c] by simp
    next
      case False
      then have "f = randomFlower e i (snd (shuffled e) + 5 * ordinaryBefore e textSets i)"
        using nth f None by simp
      then show ?thesis using randomFlower_bounds by simp
    qed
  qed
qed

lemma assignedPoint_in_box:
  assumes "k < length (assignedPoints e ts)"
  shows "min (effOffsetX ts) (effOffsetX ts + b_width (ts_bounds ts))
            - \<bar>ts_jitter ts\<bar> / 2 * \<bar>b_width (ts_bounds ts) / real (maskCols ts)\<bar>
          \<le> sp_x (assignedPoints e ts ! k)
       \<and> sp_x (assignedPoints e ts ! k)
          \<le> max (effOffsetX ts) (effOffsetX ts + b_width (ts_bounds ts))
            + \<bar>ts_jitter ts\<bar> / 2 * \<bar>b_width (ts_bounds ts) / real (maskCols ts)\<bar>
       \<and> min (effOffsetY ts) (effOffsetY ts + b_height (ts_bounds ts))
            - \<bar>ts_jitter ts\<bar> / 2 * \<bar>b_height (ts_bounds ts) / real (maskRows ts)\<bar>
          \<le> sp_y (assignedPoints e ts ! k)
       \<and> sp_y (assignedPoints e ts ! k)
          \<le> max (effOffsetY ts) (effOffsetY ts + b_height (ts_bounds ts))
            + \<bar>ts_jitter ts\<bar> / 2 * \<bar>b_height (ts_bounds ts) / real (maskRows ts)\<bar>"
proof -
  define gen where "gen = generateFlowerPositionsFromMask e (maskOf ts) (boundsOf ts) (ts_density ts)"
  define cx where "cx = spawnCtx e (maskOf ts) (boundsOf ts)"
  define p where "p = gen ! k"
  have ap: "assignedPoints e ts =
      assignSpeciesToPoints gen (maskOf ts) (uniqueInOrder (concat (ts_lineSpecies ts))) (ts_lineSpecies ts)"
    by (simp add: assignedPoints_def gen_def Let_def)
  have kg: "k < length gen" using assms by (simp add: ap assignSpeciesToPoints_length)
  have xy: "sp_x (assignedPoints e ts ! k) = sp_x p" "sp_y (assignedPoints e ts ! k) = sp_y p"
    unfolding ap p_def using assignSpeciesToPoints_coords[OF kg] by simp_all
  have "p \<in> set gen" using kg by (simp add: p_def)
  then have ok: "spawnOK cx (tm_mask (maskOf ts)) p"
    unfolding gen_def cx_def by (rule generate_spawnOK)
  then obtain r1 r2 where row: "sp_row p < length (tm_mask (maskOf ts))"
    and col: "sp_col p < length (tm_mask (maskOf ts) ! sp_row p)"
    and r1: "0 \<le> r1" "r1 < 1" and r2: "0 \<le> r2" "r2 < 1"
    and x: "sp_x p = sc_offsetX cx + (real (sp_col p) + 0.5 + (r1 - 0.5) * sc_jitter cx) * sc_cellW cx"
    and y: "sp_y p = sc_offsetY cx + (real (sp_row p) + 0.5 + (r2 - 0.5) * sc_jitter cx) * sc_cellH cx"
    unfolding spawnOK_def by blast
  obtain C where C: "\<forall>r \<in> set (tm_mask (maskOf ts)). length r = C"
    using buildTextMask_rectangular unfolding maskOf_def by blast
  obtain r0 rest where m: "tm_mask (maskOf ts) = r0 # rest"
    using row by (cases "tm_mask (maskOf ts)") auto
  have "length r0 = C" using C m by simp
  moreover have "length (tm_mask (maskOf ts) ! sp_row p) = C" using C row by simp
  ultimately have col': "sp_col p < maskCols ts" using col m by (simp add: maskCols_def)
  have row': "sp_row p < maskRows ts" using row by (simp add: maskRows_def)
  have cxs: "sc_offsetX cx = effOffsetX ts" "sc_offsetY cx = effOffsetY ts"
    "sc_jitter cx = ts_jitter ts"
    "sc_cellW cx = b_width (ts_bounds ts) / real (maskCols ts)"
    "sc_cellH cx = b_height (ts_bounds ts) / real (maskRows ts)"
    by (simp_all add: cx_def spawnCtx_def boundsOf_def effOffsetX_def effOffsetY_def
        maskCols_def maskRows_def Let_def)
  show ?thesis
    unfolding xy x y cxs
    using box_bound[OF r1 col', of "effOffsetX ts" "b_width (ts_bounds ts)" "ts_jitter ts"]
      box_bound[OF r2 row', of "effOffsetY ts" "b_height (ts_bounds ts)" "ts_jitter ts"]
    by blast
qed


text \<open>
  C8, bounds containment, over the real numbers: an ordinary placement lies in
  \<open>[0,100] \<times> [0,100]\<close>; a message placement carries the id of a configuration of the input
  and lies in the box of that configuration (from the offset, centred when none is given,
  to the offset plus the width or height), extended on each side by \<open>|jitter| / 2\<close> of one
  cell of its mask. For a box of non-negative width and height and a non-negative jitter
  these are the bounds \<open>offset - jitter / 2 * cell\<close> and \<open>offset + size + jitter / 2 * cell\<close>.
\<close>

theorem bounds_containment:
  assumes "f \<in> set (generateGarden e count textSets)"
  shows "(fd_textSetId f = None \<longrightarrow>
            0 \<le> fd_x f \<and> fd_x f \<le> 100 \<and> 0 \<le> fd_y f \<and> fd_y f \<le> 100)
       \<and> (\<forall>tid. fd_textSetId f = Some tid \<longrightarrow>
            (\<exists>ts \<in> set textSets. ts_id ts = tid
              \<and> min (effOffsetX ts) (effOffsetX ts + b_width (ts_bounds ts))
                    - \<bar>ts_jitter ts\<bar> / 2 * \<bar>b_width (ts_bounds ts) / real (maskCols ts)\<bar> \<le> fd_x f
              \<and> fd_x f \<le> max (effOffsetX ts) (effOffsetX ts + b_width (ts_bounds ts))
                    + \<bar>ts_jitter ts\<bar> / 2 * \<bar>b_width (ts_bounds ts) / real (maskCols ts)\<bar>
              \<and> min (effOffsetY ts) (effOffsetY ts + b_height (ts_bounds ts))
                    - \<bar>ts_jitter ts\<bar> / 2 * \<bar>b_height (ts_bounds ts) / real (maskRows ts)\<bar> \<le> fd_y f
              \<and> fd_y f \<le> max (effOffsetY ts) (effOffsetY ts + b_height (ts_bounds ts))
                    + \<bar>ts_jitter ts\<bar> / 2 * \<bar>b_height (ts_bounds ts) / real (maskRows ts)\<bar>
              \<and> (0 \<le> b_width (ts_bounds ts) \<and> 0 \<le> b_height (ts_bounds ts) \<and> 0 \<le> ts_jitter ts \<longrightarrow>
                    effOffsetX ts - ts_jitter ts / 2 * (b_width (ts_bounds ts) / real (maskCols ts)) \<le> fd_x f
                  \<and> fd_x f \<le> effOffsetX ts + b_width (ts_bounds ts)
                               + ts_jitter ts / 2 * (b_width (ts_bounds ts) / real (maskCols ts))
                  \<and> effOffsetY ts - ts_jitter ts / 2 * (b_height (ts_bounds ts) / real (maskRows ts)) \<le> fd_y f
                  \<and> fd_y f \<le> effOffsetY ts + b_height (ts_bounds ts)
                               + ts_jitter ts / 2 * (b_height (ts_bounds ts) / real (maskRows ts)))))"
proof (intro conjI allI impI)
  assume "fd_textSetId f = None"
  then have b: "0 \<le> fd_x f \<and> fd_x f \<le> 100 \<and> 0 \<le> fd_y f \<and> fd_y f \<le> 100"
    by (rule ordinary_placement_bounds[OF assms])
  show "0 \<le> fd_x f" "fd_x f \<le> 100" "0 \<le> fd_y f" "fd_y f \<le> 100"
    using b by simp_all
next
  fix tid assume tid: "fd_textSetId f = Some tid"
  obtain ts k where ts: "ts \<in> set textSets" and k: "k < length (assignedPoints e ts)"
    and ft: "f = textFlower e (fd_id f) (slotOf e (buildSpeciesVariants e) ts (k, assignedPoints e ts ! k))"
    and id: "ts_id ts = tid"
    using message_placement[OF assms tid] by blast
  have xy: "fd_x f = sp_x (assignedPoints e ts ! k)" "fd_y f = sp_y (assignedPoints e ts ! k)"
    by (subst ft, simp add: textFlower_def)+
  note box = assignedPoint_in_box[OF k, folded xy]
  have special: "0 \<le> b_width (ts_bounds ts) \<and> 0 \<le> b_height (ts_bounds ts) \<and> 0 \<le> ts_jitter ts \<longrightarrow>
                    effOffsetX ts - ts_jitter ts / 2 * (b_width (ts_bounds ts) / real (maskCols ts)) \<le> fd_x f
                  \<and> fd_x f \<le> effOffsetX ts + b_width (ts_bounds ts)
                               + ts_jitter ts / 2 * (b_width (ts_bounds ts) / real (maskCols ts))
                  \<and> effOffsetY ts - ts_jitter ts / 2 * (b_height (ts_bounds ts) / real (maskRows ts)) \<le> fd_y f
                  \<and> fd_y f \<le> effOffsetY ts + b_height (ts_bounds ts)
                               + ts_jitter ts / 2 * (b_height (ts_bounds ts) / real (maskRows ts))"
  proof
    assume wf: "0 \<le> b_width (ts_bounds ts) \<and> 0 \<le> b_height (ts_bounds ts) \<and> 0 \<le> ts_jitter ts"
    have a: "\<bar>b_width (ts_bounds ts) / real (maskCols ts)\<bar> = b_width (ts_bounds ts) / real (maskCols ts)"
      "\<bar>b_height (ts_bounds ts) / real (maskRows ts)\<bar> = b_height (ts_bounds ts) / real (maskRows ts)"
      "\<bar>ts_jitter ts\<bar> = ts_jitter ts"
      using wf by simp_all
    show "effOffsetX ts - ts_jitter ts / 2 * (b_width (ts_bounds ts) / real (maskCols ts)) \<le> fd_x f
                  \<and> fd_x f \<le> effOffsetX ts + b_width (ts_bounds ts)
                               + ts_jitter ts / 2 * (b_width (ts_bounds ts) / real (maskCols ts))
                  \<and> effOffsetY ts - ts_jitter ts / 2 * (b_height (ts_bounds ts) / real (maskRows ts)) \<le> fd_y f
                  \<and> fd_y f \<le> effOffsetY ts + b_height (ts_bounds ts)
                               + ts_jitter ts / 2 * (b_height (ts_bounds ts) / real (maskRows ts))"
      using box wf unfolding a by (simp add: min_def max_def)
  qed
  show "\<exists>ts \<in> set textSets. ts_id ts = tid
              \<and> min (effOffsetX ts) (effOffsetX ts + b_width (ts_bounds ts))
                    - \<bar>ts_jitter ts\<bar> / 2 * \<bar>b_width (ts_bounds ts) / real (maskCols ts)\<bar> \<le> fd_x f
              \<and> fd_x f \<le> max (effOffsetX ts) (effOffsetX ts + b_width (ts_bounds ts))
                    + \<bar>ts_jitter ts\<bar> / 2 * \<bar>b_width (ts_bounds ts) / real (maskCols ts)\<bar>
              \<and> min (effOffsetY ts) (effOffsetY ts + b_height (ts_bounds ts))
                    - \<bar>ts_jitter ts\<bar> / 2 * \<bar>b_height (ts_bounds ts) / real (maskRows ts)\<bar> \<le> fd_y f
              \<and> fd_y f \<le> max (effOffsetY ts) (effOffsetY ts + b_height (ts_bounds ts))
                    + \<bar>ts_jitter ts\<bar> / 2 * \<bar>b_height (ts_bounds ts) / real (maskRows ts)\<bar>
              \<and> (0 \<le> b_width (ts_bounds ts) \<and> 0 \<le> b_height (ts_bounds ts) \<and> 0 \<le> ts_jitter ts \<longrightarrow>
                    effOffsetX ts - ts_jitter ts / 2 * (b_width (ts_bounds ts) / real (maskCols ts)) \<le> fd_x f
                  \<and> fd_x f \<le> effOffsetX ts + b_width (ts_bounds ts)
                               + ts_jitter ts / 2 * (b_width (ts_bounds ts) / real (maskCols ts))
                  \<and> effOffsetY ts - ts_jitter ts / 2 * (b_height (ts_bounds ts) / real (maskRows ts)) \<le> fd_y f
                  \<and> fd_y f \<le> effOffsetY ts + b_height (ts_bounds ts)
                               + ts_jitter ts / 2 * (b_height (ts_bounds ts) / real (maskRows ts)))"
    by (rule bexI[OF _ ts]) (use box special id in blast)
qed


theorem bounds_containment_witness:
  "0 \<le> fd_x (generateGarden sampleEnv 60 [sampleMessage ''m''] ! 0)
   \<and> fd_x (generateGarden sampleEnv 60 [sampleMessage ''m''] ! 0) \<le> 100
   \<and> 10 - (1 / 10) / 2 * (80 / 6) \<le> fd_x (generateGarden sampleEnv 60 [sampleMessage ''m''] ! 50)
   \<and> fd_x (generateGarden sampleEnv 60 [sampleMessage ''m''] ! 50) \<le> 10 + 80 + (1 / 10) / 2 * (80 / 6)
   \<and> 10 - (1 / 10) / 2 * (80 / 7) \<le> fd_y (generateGarden sampleEnv 60 [sampleMessage ''m''] ! 50)
   \<and> fd_y (generateGarden sampleEnv 60 [sampleMessage ''m''] ! 50) \<le> 10 + 80 + (1 / 10) / 2 * (80 / 7)"
proof -
  let ?ts = "sampleMessage ''m''"
  let ?g = "generateGarden sampleEnv 60 [?ts]"
  have len: "length ?g = 60" by (simp add: generateGarden_def gardenLoop_length)
  have m0: "?g ! 0 \<in> set ?g" and m50: "?g ! 50 \<in> set ?g" by (rule nth_mem, simp add: len)+
  have s: "ts_startDay ?ts = 50" and idm: "ts_id ?ts = ''m''"
    by (simp_all add: sampleMessage_def)
  have slot0: "textSlotMapOf sampleEnv [?ts] (int 0) = None"
    by (simp add: textSlotMapOf_single s)
  have t0: "fd_textSetId (?g ! 0) = None"
    using generateGarden_nth[of 0 60 sampleEnv "[?ts]"] slot0
    by (simp add: gridFlower_def randomFlower_def Let_def)
  have slot50: "textSlotMapOf sampleEnv [?ts] (int 50) =
      Some (slotOf sampleEnv (buildSpeciesVariants sampleEnv) ?ts (0, assignedPoints sampleEnv ?ts ! 0))"
    by (simp add: textSlotMapOf_single s sampleMessage_points)
  have t50: "fd_textSetId (?g ! 50) = Some ''m''"
    using generateGarden_nth[of 50 60 sampleEnv "[?ts]"] slot50
    by (simp add: textFlower_def idm)
  have geo: "effOffsetX ?ts = 10" "effOffsetY ?ts = 10" "b_width (ts_bounds ?ts) = 80"
    "b_height (ts_bounds ?ts) = 80" "ts_jitter ?ts = 1 / 10"
    by (simp_all add: effOffsetX_def effOffsetY_def sampleMessage_def)
  have dims: "maskCols ?ts = 6" "maskRows ?ts = 7"
    by (simp_all add: maskCols_def maskRows_def sampleMessage_mask)
  have ord: "0 \<le> fd_x (?g ! 0) \<and> fd_x (?g ! 0) \<le> 100"
    using bounds_containment[OF m0] t0 by blast
  obtain ts where ts: "ts \<in> set [?ts]"
    and box: "0 \<le> b_width (ts_bounds ts) \<and> 0 \<le> b_height (ts_bounds ts) \<and> 0 \<le> ts_jitter ts \<longrightarrow>
                    effOffsetX ts - ts_jitter ts / 2 * (b_width (ts_bounds ts) / real (maskCols ts)) \<le> fd_x (?g ! 50)
                  \<and> fd_x (?g ! 50) \<le> effOffsetX ts + b_width (ts_bounds ts)
                               + ts_jitter ts / 2 * (b_width (ts_bounds ts) / real (maskCols ts))
                  \<and> effOffsetY ts - ts_jitter ts / 2 * (b_height (ts_bounds ts) / real (maskRows ts)) \<le> fd_y (?g ! 50)
                  \<and> fd_y (?g ! 50) \<le> effOffsetY ts + b_height (ts_bounds ts)
                               + ts_jitter ts / 2 * (b_height (ts_bounds ts) / real (maskRows ts))"
    using bounds_containment[OF m50] t50 by blast
  have eq: "ts = ?ts" using ts by simp
  have wf: "0 \<le> b_width (ts_bounds ?ts) \<and> 0 \<le> b_height (ts_bounds ?ts) \<and> 0 \<le> ts_jitter ?ts"
    by (simp add: geo)
  have "effOffsetX ?ts - ts_jitter ?ts / 2 * (b_width (ts_bounds ?ts) / real (maskCols ?ts)) \<le> fd_x (?g ! 50)
                  \<and> fd_x (?g ! 50) \<le> effOffsetX ?ts + b_width (ts_bounds ?ts)
                               + ts_jitter ?ts / 2 * (b_width (ts_bounds ?ts) / real (maskCols ?ts))
                  \<and> effOffsetY ?ts - ts_jitter ?ts / 2 * (b_height (ts_bounds ?ts) / real (maskRows ?ts)) \<le> fd_y (?g ! 50)
                  \<and> fd_y (?g ! 50) \<le> effOffsetY ?ts + b_height (ts_bounds ?ts)
                               + ts_jitter ?ts / 2 * (b_height (ts_bounds ?ts) / real (maskRows ?ts))"
    using box wf unfolding eq by blast
  then show ?thesis using ord unfolding geo dims by simp
qed

section \<open>The letters of the text mask\<close>


















end
